theory Spec2Isabelle
  imports Main
begin

section \<open>SGDET-Annotate: the annotation session of \<^verbatim>\<open>main.py\<close>\<close>

text \<open>
  The class \<^verbatim>\<open>AnnotationTool\<close> keeps the whole annotation session in instance
  variables and changes them in Tk callbacks. The embedding below is by explicit state
  passing: the instance variables are the fields of the record \<open>tool\<close>, every callback
  is a function from the state (and the inputs it reads from the event, from a list box or
  from a dialog) to the new state and the list of message boxes it has shown.

  Confirmed bounding boxes are Python dictionaries that are shared: the list
  \<^verbatim>\<open>confirmed_bboxes\<close>, \<^verbatim>\<open>selected_bbox\<close>, \<^verbatim>\<open>source_bbox\<close>, \<^verbatim>\<open>change_bbox\<close> and the tuples
  in \<^verbatim>\<open>relationships\<close> all hold references to the same objects, and the callbacks
  mutate them in place. They live in an explicit store (\<open>heap\<close>, from references to
  dictionary contents). Python's \<^verbatim>\<open>==\<close> on two dictionaries compares their contents and
  \<^verbatim>\<open>is\<close> compares the references; both occur in the source and both are kept.

  Calls that only draw (\<^verbatim>\<open>itemconfig\<close>, \<^verbatim>\<open>coords\<close>, \<^verbatim>\<open>delete\<close>, \<^verbatim>\<open>tag_lower\<close>, the list-box
  selection highlighting) change no instance variable and are left out; calls that
  create a canvas item return a fresh item id, taken from the counter \<open>next_item\<close>.
\<close>

subsection \<open>Data\<close>

type_synonym ref = nat
type_synonym item = nat
type_synonym coords = "int \<times> int \<times> int \<times> int"

text \<open>The dictionary of a confirmed box (\<^verbatim>\<open>confirm_label_assignment\<close>); the key
  \<^verbatim>\<open>'id'\<close> is the field \<open>inst_id\<close>, the optional key \<^verbatim>\<open>'text_bg_id'\<close> is an option.\<close>

record bbox =
  rect_id :: item
  coords :: coords
  label :: int
  inst_id :: int
  label_str :: string
  text_id :: item
  selected :: bool
  attributes :: "string list"
  text_bg_id :: "item option"

text \<open>The dictionary of the pending box (\<^verbatim>\<open>on_mouse_up\<close>, \<^verbatim>\<open>create_handles\<close>).\<close>

record pending =
  p_rect_id :: item
  p_coords :: coords
  handles :: "(string \<times> item) list option"

text \<open>What a callback shows or raises. \<open>Raised\<close> is an exception that leaves the
  callback (Tk reports it and goes on; the assignments made before it stay).\<close>

datatype msg =
    ShowWarning string string
  | ShowInfo string string
  | ShowError string string
  | Raised string

record tool =
  loaded_image :: "(nat \<times> nat) option"
  image_area :: "coords option"
  image_path :: "string option"
  create_bbox_active :: bool
  handling_new_bbox :: bool
  start_x :: "int option"
  start_y :: "int option"
  temp_rect :: "item option"
  pending_bbox :: "pending option"
  heap :: "ref \<Rightarrow> bbox"
  next_ref :: ref
  next_item :: item
  confirmed_bboxes :: "ref list"
  label_counts :: "string \<rightharpoonup> int"
  selected_bbox :: "ref option"
  change_label_mode :: bool
  change_bbox :: "ref option"
  change_old_label :: "string option"
  attribute_add_mode :: bool
  relationship_mode :: bool
  source_bbox :: "ref option"
  pending_relationship :: string
  relationships :: "(ref \<times> string \<times> ref) list"
  predicates :: "int list option"
  labels_mapping :: "(string \<rightharpoonup> int) option"
  attributes_mapping :: "(string \<rightharpoonup> int) option"
  relationships_mapping :: "(string \<rightharpoonup> int) option"
  label_listbox :: "string list"
  attr_listbox :: "string list"
  rel_listbox :: "string list"
  labeled_disabled :: bool
  labeled_bound :: bool
  attribute_view :: "string list"
  relationship_view :: "string list"
  dragging_handle :: "(item \<times> int \<times> int) option"

text \<open>\<open>predicates\<close>, the three mappings and \<open>dragging_handle\<close> are attributes that
  do not exist until first assigned (\<^verbatim>\<open>hasattr\<close>): \<open>None\<close> is "no such attribute".\<close>

subsection \<open>Python helpers\<close>

text \<open>\<^verbatim>\<open>a == b\<close> on two box dictionaries, and on values that may be \<^verbatim>\<open>None\<close>.\<close>

definition dict_eq :: "(ref \<Rightarrow> bbox) \<Rightarrow> ref \<Rightarrow> ref \<Rightarrow> bool" where
  "dict_eq h a b = (h a = h b)"

fun opt_eq :: "(ref \<Rightarrow> bbox) \<Rightarrow> ref option \<Rightarrow> ref option \<Rightarrow> bool" where
  "opt_eq h None None = True"
| "opt_eq h (Some a) (Some b) = dict_eq h a b"
| "opt_eq h _ _ = False"

text \<open>\<^verbatim>\<open>str(n)\<close> for the integers of an f-string.\<close>

definition digit_char :: "nat \<Rightarrow> char" where
  "digit_char d = ''0123456789'' ! d"

fun str_nat :: "nat \<Rightarrow> string" where
  "str_nat n = (if n < 10 then [digit_char n] else str_nat (n div 10) @ [digit_char (n mod 10)])"

declare str_nat.simps [simp del]

definition str_int :: "int \<Rightarrow> string" where
  "str_int i = (if i < 0 then CHR ''-'' # str_nat (nat (- i)) else str_nat (nat i))"

text \<open>\<^verbatim>\<open>xs.pop(i)\<close> and \<^verbatim>\<open>xs.remove(v)\<close> (the latter with the equality given).\<close>

definition pop_at :: "nat \<Rightarrow> 'a list \<Rightarrow> 'a list" where
  "pop_at i xs = take i xs @ drop (Suc i) xs"

fun remove_first :: "('a \<Rightarrow> bool) \<Rightarrow> 'a list \<Rightarrow> 'a list option" where
  "remove_first P [] = None"
| "remove_first P (x # xs) =
     (if P x then Some xs else map_option ((#) x) (remove_first P xs))"

text \<open>\<^verbatim>\<open>curselection()\<close> followed by \<^verbatim>\<open>get(selection[0])\<close> on a list box with the given
  items: the user's selection is an input, and only an existing row can be selected.\<close>

definition picked :: "string list \<Rightarrow> nat option \<Rightarrow> string option" where
  "picked items sel =
     (case sel of None \<Rightarrow> None
      | Some i \<Rightarrow> if i < length items then Some (items ! i) else None)"

subsection \<open>Hit tests\<close>

definition contains :: "coords \<Rightarrow> int \<Rightarrow> int \<Rightarrow> bool" where
  "contains c x y = (case c of (x1, y1, x2, y2) \<Rightarrow> x1 \<le> x \<and> x \<le> x2 \<and> y1 \<le> y \<and> y \<le> y2)"

definition area :: "coords \<Rightarrow> int" where
  "area c = (case c of (x1, y1, x2, y2) \<Rightarrow> (x2 - x1) * (y2 - y1))"

text \<open>The loop shared by \<^verbatim>\<open>_get_confirmed_bbox_at\<close> and
  \<^verbatim>\<open>_get_confirmed_second_bbox_relationship\<close>; the accumulator is the pair
  \<^verbatim>\<open>(selected_bbox, smallest_area)\<close>, \<open>None\<close> while both are \<^verbatim>\<open>None\<close>.\<close>

fun smallest_scan :: "(ref \<Rightarrow> bbox) \<Rightarrow> int \<Rightarrow> int \<Rightarrow> ref list \<Rightarrow> (ref \<times> int) option \<Rightarrow> (ref \<times> int) option" where
  "smallest_scan h x y [] acc = acc"
| "smallest_scan h x y (bb # bbs) acc =
     (if contains (coords (h bb)) x y then
        (let a = area (coords (h bb)) in
         case acc of
           None \<Rightarrow> smallest_scan h x y bbs (Some (bb, a))
         | Some (sel, smallest) \<Rightarrow>
             if a < smallest then smallest_scan h x y bbs (Some (bb, a))
             else smallest_scan h x y bbs acc)
      else smallest_scan h x y bbs acc)"

definition get_confirmed_second_bbox_relationship :: "tool \<Rightarrow> int \<Rightarrow> int \<Rightarrow> ref option" where
  "get_confirmed_second_bbox_relationship s x y =
     map_option fst (smallest_scan (heap s) x y (confirmed_bboxes s) None)"

definition get_confirmed_bbox_at :: "tool \<Rightarrow> int \<Rightarrow> int \<Rightarrow> ref option" where
  "get_confirmed_bbox_at s x y =
     (case selected_bbox s of
        Some sel \<Rightarrow> if contains (coords (heap s sel)) x y then Some sel else None
      | None \<Rightarrow> map_option fst (smallest_scan (heap s) x y (confirmed_bboxes s) None))"

subsection \<open>The views\<close>

text \<open>The row of a box in the labeled view and of an edge in the relationship view:
  \<^verbatim>\<open>f"{bb['label_str']}:{bb['id']}"\<close> and
  \<^verbatim>\<open>f"{source} --- {rel_str} --- {target}"\<close>.\<close>

definition bbox_entry :: "bbox \<Rightarrow> string" where
  "bbox_entry bb = label_str bb @ '':'' @ str_int (inst_id bb)"

definition rel_entry :: "(ref \<Rightarrow> bbox) \<Rightarrow> ref \<times> string \<times> ref \<Rightarrow> string" where
  "rel_entry h rel =
     (case rel of (source, rel_str, target) \<Rightarrow>
        bbox_entry (h source) @ '' --- '' @ rel_str @ '' --- '' @ bbox_entry (h target))"

text \<open>An edge is shown unless a box is selected and the edge's source \<^verbatim>\<open>!=\<close> it.\<close>

definition displayed :: "tool \<Rightarrow> ref \<times> string \<times> ref \<Rightarrow> bool" where
  "displayed s rel =
     (case selected_bbox s of None \<Rightarrow> True
      | Some sel \<Rightarrow> dict_eq (heap s) (fst rel) sel)"

definition update_relationship_view :: "tool \<Rightarrow> tool" where
  "update_relationship_view s =
     s\<lparr>relationship_view := map (rel_entry (heap s)) (filter (displayed s) (relationships s))\<rparr>"

definition update_attribute_view :: "tool \<Rightarrow> tool" where
  "update_attribute_view s =
     s\<lparr>attribute_view :=
         (case selected_bbox s of None \<Rightarrow> [] | Some sel \<Rightarrow> attributes (heap s sel))\<rparr>"

text \<open>\<^verbatim>\<open>update_labeled_view\<close> refills the labeled list box from \<^verbatim>\<open>confirmed_bboxes\<close> and
  assigns no instance variable. The rows of that list box are not kept in the state:
  the row the user selects is an input of \<open>on_labeled_select\<close>.\<close>

subsection \<open>Selection\<close>

definition deselect_bbox :: "tool \<Rightarrow> ref \<Rightarrow> tool" where
  "deselect_bbox s bb =
     (let h1 = (heap s)(bb := (heap s bb)\<lparr>selected := False, text_bg_id := None\<rparr>);
          s1 = s\<lparr>heap := h1\<rparr>;
          s2 = (if opt_eq h1 (selected_bbox s1) (Some bb) then s1\<lparr>selected_bbox := None\<rparr> else s1)
      in update_attribute_view (update_relationship_view s2))"

text \<open>In \<^verbatim>\<open>_select_bbox\<close> the text item of a confirmed box exists, so \<^verbatim>\<open>canvas.bbox\<close>
  returns its extent and the background rectangle is created.\<close>

definition select_bbox :: "tool \<Rightarrow> ref \<Rightarrow> tool" where
  "select_bbox s bb =
     (if create_bbox_active s \<or> attribute_add_mode s \<or> relationship_mode s then s
      else
        let s1 = (case selected_bbox s of
                    None \<Rightarrow> s
                  | Some old \<Rightarrow> if old \<noteq> bb then deselect_bbox s old else s);
            bg_rect = next_item s1;
            h2 = (heap s1)(bb := (heap s1 bb)\<lparr>selected := True, text_bg_id := Some bg_rect\<rparr>);
            s2 = s1\<lparr>heap := h2, selected_bbox := Some bb, next_item := Suc bg_rect\<rparr>
        in update_attribute_view (update_relationship_view s2))"

subsection \<open>Canvas clicks\<close>

definition inside_image_area :: "tool \<Rightarrow> int \<Rightarrow> int \<Rightarrow> bool" where
  "inside_image_area s x y =
     (case image_area s of None \<Rightarrow> False
      | Some (area_x, area_y, area_w, area_h) \<Rightarrow>
          area_x \<le> x \<and> x \<le> area_x + area_w \<and> area_y \<le> y \<and> y \<le> area_y + area_h)"

text \<open>The test of the duplicate loop of \<^verbatim>\<open>on_canvas_click\<close>:
  \<^verbatim>\<open>rel[0] == self.source_bbox and rel[1] == self.pending_relationship and rel[2] == target_bbox\<close>.\<close>

definition same_relationship :: "tool \<Rightarrow> ref \<Rightarrow> ref \<times> string \<times> ref \<Rightarrow> bool" where
  "same_relationship s target rel =
     (case rel of (r0, r1, r2) \<Rightarrow>
        opt_eq (heap s) (Some r0) (source_bbox s) \<and> r1 = pending_relationship s
        \<and> dict_eq (heap s) r2 target)"

definition end_relationship_mode :: "tool \<Rightarrow> tool" where
  "end_relationship_mode s =
     s\<lparr>relationship_mode := False, source_bbox := None, pending_relationship := [],
       labeled_disabled := False\<rparr>"

text \<open>The relationship branch of \<^verbatim>\<open>on_canvas_click\<close> (from \<^verbatim>\<open>if self.relationship_mode:\<close>);
  \<open>confirm\<close> is the answer to the "Confirm Relationship" dialog.\<close>

definition click_target :: "tool \<Rightarrow> int \<Rightarrow> int \<Rightarrow> bool \<Rightarrow> tool \<times> msg list" where
  "click_target s x y confirm =
     (if pending_relationship s = [] then (s, [])
      else
        case get_confirmed_second_bbox_relationship s x y of
          None \<Rightarrow> (s, [ShowWarning ''Add Relationship'' ''Please click on a valid target bounding box.''])
        | Some target \<Rightarrow>
            if opt_eq (heap s) (Some target) (source_bbox s)
            then (s, [ShowWarning ''Add Relationship'' ''Target bbox must be different from the source.''])
            else if list_ex (same_relationship s target) (relationships s)
            then (end_relationship_mode s,
                  [ShowWarning ''Add Relationship'' ''This relationship has already been created.''])
            else
              case source_bbox s of
                None \<Rightarrow> (s, [Raised ''TypeError''])
              | Some source \<Rightarrow>
                  case relationships_mapping s of
                    None \<Rightarrow> (s, [Raised ''AttributeError''])
                  | Some m \<Rightarrow>
                      let predicate = (case m (pending_relationship s) of None \<Rightarrow> 0 | Some p \<Rightarrow> p);
                          s1 = (if confirm then
                                  update_relationship_view
                                    (s\<lparr>relationships := relationships s @ [(source, pending_relationship s, target)],
                                       predicates := Some ((case predicates s of None \<Rightarrow> [] | Some ps \<Rightarrow> ps) @ [predicate])\<rparr>)
                                else s)
                      in (end_relationship_mode s1, []))"

definition on_canvas_click :: "tool \<Rightarrow> int \<Rightarrow> int \<Rightarrow> bool \<Rightarrow> tool \<times> msg list" where
  "on_canvas_click s x y confirm =
     (if create_bbox_active s then
        (if image_area s \<noteq> None \<and> inside_image_area s x y \<and> \<not> handling_new_bbox s
         then (s\<lparr>start_x := Some x, start_y := Some y, temp_rect := Some (next_item s),
                 next_item := Suc (next_item s), handling_new_bbox := True\<rparr>, [])
         else (s, []))
      else
        let clicked_bbox = get_confirmed_bbox_at s x y in
        if (attribute_add_mode s \<or> relationship_mode s \<or> change_label_mode s)
           \<and> opt_eq (heap s) clicked_bbox (selected_bbox s)
        then (s, [])
        else
          let s1 = (case clicked_bbox of
                      None \<Rightarrow> s
                    | Some c \<Rightarrow>
                        if selected_bbox s = None then select_bbox s c
                        else if opt_eq (heap s) (selected_bbox s) (Some c) then deselect_bbox s c
                        else s)
          in if relationship_mode s1 then click_target s1 x y confirm else (s1, []))"

subsection \<open>Drawing and resizing the pending box\<close>

definition clamp_to_area :: "tool \<Rightarrow> int \<Rightarrow> int \<Rightarrow> int \<times> int" where
  "clamp_to_area s x y =
     (case image_area s of
        Some (area_x, area_y, area_w, area_h) \<Rightarrow>
          (min (max x area_x) (area_x + area_w), min (max y area_y) (area_y + area_h))
      | None \<Rightarrow> (x, y))"

text \<open>\<^verbatim>\<open>create_handles\<close>: eight ovals, created in this order.\<close>

definition handle_keys :: "string list" where
  "handle_keys = [''tl'', ''tr'', ''bl'', ''br'', ''tm'', ''bm'', ''ml'', ''mr'']"

definition create_handles :: "item \<Rightarrow> (string \<times> item) list" where
  "create_handles first = zip handle_keys [first ..< first + 8]"

definition on_mouse_up :: "tool \<Rightarrow> int \<Rightarrow> int \<Rightarrow> tool \<times> msg list" where
  "on_mouse_up s ex ey =
     (case temp_rect s of
        None \<Rightarrow> (s, [])
      | Some rect \<Rightarrow>
          if \<not> create_bbox_active s then (s, [])
          else
            case (start_x s, start_y s) of
              (Some x1, Some y1) \<Rightarrow>
                (case clamp_to_area s ex ey of (x2, y2) \<Rightarrow>
                   if \<bar>x2 - x1\<bar> < 10 \<or> \<bar>y2 - y1\<bar> < 10
                   then (s\<lparr>temp_rect := None, handling_new_bbox := False\<rparr>, [])
                   else
                     (s\<lparr>pending_bbox :=
                           Some \<lparr>p_rect_id = rect,
                                 p_coords = (min x1 x2, min y1 y2, max x1 x2, max y1 y2),
                                 handles = Some (create_handles (next_item s))\<rparr>,
                         next_item := next_item s + 8,
                         temp_rect := None\<rparr>, []))
            | _ \<Rightarrow> (s, [Raised ''TypeError'']))"

definition on_handle_press :: "tool \<Rightarrow> item \<Rightarrow> int \<Rightarrow> int \<Rightarrow> tool" where
  "on_handle_press s handle_id ex ey = s\<lparr>dragging_handle := Some (handle_id, ex, ey)\<rparr>"

text \<open>The tags of a handle are \<^verbatim>\<open>("handle", key)\<close> while the handle exists, and none once
  it is deleted; the handles that exist are those of the pending box.\<close>

definition handle_key_of :: "tool \<Rightarrow> item \<Rightarrow> string option" where
  "handle_key_of s handle_id =
     (case pending_bbox s of
        None \<Rightarrow> None
      | Some p \<Rightarrow>
          (case handles p of
             None \<Rightarrow> None
           | Some hs \<Rightarrow> map_option fst (find (\<lambda>kh. snd kh = handle_id) hs)))"

definition move_handle :: "string \<Rightarrow> int \<Rightarrow> int \<Rightarrow> coords \<Rightarrow> coords" where
  "move_handle handle_key dx dy c =
     (case c of (x1, y1, x2, y2) \<Rightarrow>
        if handle_key = ''tl'' then (x1 + dx, y1 + dy, x2, y2)
        else if handle_key = ''tr'' then (x1, y1 + dy, x2 + dx, y2)
        else if handle_key = ''bl'' then (x1 + dx, y1, x2, y2 + dy)
        else if handle_key = ''br'' then (x1, y1, x2 + dx, y2 + dy)
        else if handle_key = ''tm'' then (x1, y1 + dy, x2, y2)
        else if handle_key = ''bm'' then (x1, y1, x2, y2 + dy)
        else if handle_key = ''ml'' then (x1 + dx, y1, x2, y2)
        else if handle_key = ''mr'' then (x1, y1, x2 + dx, y2)
        else (x1, y1, x2, y2))"

definition enforce_min_size :: "string \<Rightarrow> coords \<Rightarrow> coords" where
  "enforce_min_size handle_key c =
     (case c of (x1, y1, x2, y2) \<Rightarrow>
        let min_size = 10;
            (x1a, x2a) = (if x2 - x1 < min_size
                          then (if handle_key \<in> set [''tl'', ''ml'', ''bl'']
                                then (x2 - min_size, x2) else (x1, x1 + min_size))
                          else (x1, x2));
            (y1a, y2a) = (if y2 - y1 < min_size
                          then (if handle_key \<in> set [''tl'', ''tm'', ''tr'']
                                then (y2 - min_size, y2) else (y1, y1 + min_size))
                          else (y1, y2))
        in (x1a, y1a, x2a, y2a))"

definition clamp_box :: "tool \<Rightarrow> coords \<Rightarrow> coords" where
  "clamp_box s c =
     (case c of (x1, y1, x2, y2) \<Rightarrow>
        case image_area s of
          Some (img_x, img_y, img_w, img_h) \<Rightarrow>
            (max x1 img_x, max y1 img_y, min x2 (img_x + img_w), min y2 (img_y + img_h))
        | None \<Rightarrow> (x1, y1, x2, y2))"

definition on_handle_drag :: "tool \<Rightarrow> int \<Rightarrow> int \<Rightarrow> tool" where
  "on_handle_drag s ex ey =
     (case dragging_handle s of
        None \<Rightarrow> s
      | Some (handle_id, last_x, last_y) \<Rightarrow>
          let dx = ex - last_x; dy = ey - last_y;
              s1 = s\<lparr>dragging_handle := Some (handle_id, ex, ey)\<rparr>
          in case handle_key_of s1 handle_id of
               None \<Rightarrow> s1
             | Some handle_key \<Rightarrow>
                 (case pending_bbox s1 of
                    None \<Rightarrow> s1
                  | Some p \<Rightarrow>
                      s1\<lparr>pending_bbox :=
                           Some (p\<lparr>p_coords :=
                                     clamp_box s1 (enforce_min_size handle_key
                                       (move_handle handle_key dx dy (p_coords p)))\<rparr>)\<rparr>))"

definition on_handle_release :: "tool \<Rightarrow> tool" where
  "on_handle_release s = s\<lparr>dragging_handle := None\<rparr>"

subsection \<open>Opening an image\<close>

text \<open>What the \<^verbatim>\<open>try\<close> block of \<^verbatim>\<open>open_image\<close> meets. The image library, the canvas size
  and the floating-point scaling are outside the model, so their results are inputs:
  \<open>DecodeFailed\<close> is an exception of \<^verbatim>\<open>Image.open\<close> or \<^verbatim>\<open>exif_transpose\<close>;
  \<open>LayoutFailed\<close> is an exception after \<^verbatim>\<open>self.loaded_image = pil_image\<close> and before
  \<^verbatim>\<open>self.image_area\<close> is assigned (in the scaling, \<^verbatim>\<open>resize\<close> or \<^verbatim>\<open>PhotoImage\<close>);
  \<open>Opened size canvas_w canvas_h new_w new_h\<close> is a run to the end.\<close>

datatype open_outcome =
    DecodeFailed string
  | LayoutFailed "nat \<times> nat" string
  | Opened "nat \<times> nat" int int int int

text \<open>The statements of \<^verbatim>\<open>open_image\<close> before the \<^verbatim>\<open>try\<close>.\<close>

definition clear_session :: "tool \<Rightarrow> string \<Rightarrow> tool" where
  "clear_session s file_path =
     (let s1 = s\<lparr>confirmed_bboxes := [], pending_bbox := None, relationships := [],
                 predicates := map_option (\<lambda>ps. []) (predicates s),
                 label_counts := Map.empty, selected_bbox := None,
                 create_bbox_active := False, start_x := None, start_y := None,
                 temp_rect := None, handling_new_bbox := False,
                 change_label_mode := False, change_bbox := None, change_old_label := None,
                 attribute_add_mode := False, relationship_mode := False,
                 loaded_image := None\<rparr>
      in (update_relationship_view (update_attribute_view s1))\<lparr>image_path := Some file_path\<rparr>)"

definition open_image :: "tool \<Rightarrow> string \<Rightarrow> open_outcome \<Rightarrow> tool \<times> msg list" where
  "open_image s file_path outcome =
     (if file_path = [] then (s, [])
      else
        let s1 = clear_session s file_path in
        case outcome of
          DecodeFailed e \<Rightarrow> (s1, [ShowError ''Open Image Error'' e])
        | LayoutFailed pil_image e \<Rightarrow>
            (s1\<lparr>loaded_image := Some pil_image\<rparr>, [ShowError ''Open Image Error'' e])
        | Opened pil_image canvas_w canvas_h new_w new_h \<Rightarrow>
            (s1\<lparr>loaded_image := Some pil_image,
                image_area := Some ((canvas_w - new_w) div 2, (canvas_h - new_h) div 2, new_w, new_h),
                next_item := Suc (next_item s1),
                confirmed_bboxes := [], selected_bbox := None\<rparr>, []))"

definition toggle_create_bbox :: "tool \<Rightarrow> tool \<times> msg list" where
  "toggle_create_bbox s =
     (if selected_bbox s \<noteq> None then (s, [])
      else if label_listbox s = []
      then (s, [ShowWarning ''Import Label List'' ''Please import label list before creating new bbox.''])
      else (s\<lparr>create_bbox_active := \<not> create_bbox_active s,
               labeled_bound := create_bbox_active s\<rparr>, []))"

subsection \<open>Label assignment and label change\<close>

text \<open>\<^verbatim>\<open>self.label_counts.get(label, 0)\<close>.\<close>

definition count_of :: "(string \<rightharpoonup> int) \<Rightarrow> string \<Rightarrow> int" where
  "count_of counts lbl = (case counts lbl of None \<Rightarrow> 0 | Some n \<Rightarrow> n)"

text \<open>\<^verbatim>\<open>mapping.get(name, 0)\<close>.\<close>

definition get0 :: "(string \<rightharpoonup> int) \<Rightarrow> string \<Rightarrow> int" where
  "get0 m name = (case m name of None \<Rightarrow> 0 | Some v \<Rightarrow> v)"

text \<open>\<open>answer\<close> is the answer to the "Confirm Label" dialog. The new dictionary is a new
  object, at the fresh reference \<open>next_ref\<close>.\<close>

definition confirm_label_assignment :: "tool \<Rightarrow> string \<Rightarrow> bool \<Rightarrow> tool \<times> msg list" where
  "confirm_label_assignment s lbl answer =
     (if \<not> answer then (s, [])
      else
        let current_instance_id = count_of (label_counts s) lbl + 1;
            s1 = s\<lparr>pending_bbox := None,
                   label_counts := (label_counts s)(lbl \<mapsto> current_instance_id)\<rparr>
        in case pending_bbox s of
             None \<Rightarrow> (s1, [Raised ''TypeError''])
           | Some pend \<Rightarrow>
               (case labels_mapping s1 of
                  None \<Rightarrow> (s1, [Raised ''AttributeError''])
                | Some m \<Rightarrow>
                    let confirmed = \<lparr>rect_id = p_rect_id pend, coords = p_coords pend,
                                      label = get0 m lbl, inst_id = current_instance_id,
                                      label_str = lbl, text_id = next_item s1,
                                      selected = False, attributes = [], text_bg_id = None\<rparr>
                    in (s1\<lparr>heap := (heap s1)(next_ref s1 := confirmed),
                           next_ref := Suc (next_ref s1),
                           next_item := Suc (next_item s1),
                           confirmed_bboxes := confirmed_bboxes s1 @ [next_ref s1],
                           handling_new_bbox := False\<rparr>, [])))"

text \<open>The loop of \<^verbatim>\<open>on_label_select\<close> over the relationships, for one edge; it runs after
  the box has been changed, and compares with \<^verbatim>\<open>==\<close>.\<close>

definition rebind_relationship :: "(ref \<Rightarrow> bbox) \<Rightarrow> ref \<Rightarrow> ref \<times> string \<times> ref \<Rightarrow> ref \<times> string \<times> ref" where
  "rebind_relationship h cb rel =
     (case rel of (src, rel_str, tgt) \<Rightarrow>
        let rel1 = (if dict_eq h src cb then (cb, rel_str, tgt) else rel)
        in if dict_eq h tgt cb then (src, rel_str, cb) else rel1)"

text \<open>The change-label branch of \<^verbatim>\<open>on_label_select\<close>; \<open>answer\<close> is the answer to the
  "Confirm Change" dialog.\<close>

definition change_label_to :: "tool \<Rightarrow> string \<Rightarrow> bool \<Rightarrow> tool \<times> msg list" where
  "change_label_to s lbl answer =
     (if Some lbl = change_old_label s
      then (s, [ShowWarning ''Change Label'' ''The new label must be different from the old label.''])
      else if \<not> answer then (s, [])
      else
        let new_instance_id = count_of (label_counts s) lbl + 1;
            s1 = s\<lparr>label_counts := (label_counts s)(lbl \<mapsto> new_instance_id)\<rparr>
        in case labels_mapping s1 of
             None \<Rightarrow> (s1, [Raised ''AttributeError''])
           | Some m \<Rightarrow>
               (case change_bbox s1 of
                  None \<Rightarrow> (s1, [Raised ''TypeError''])
                | Some cb \<Rightarrow>
                    let h2 = (heap s1)(cb := (heap s1 cb)\<lparr>label := get0 m lbl,
                                                          inst_id := new_instance_id,
                                                          label_str := lbl\<rparr>);
                        s2 = s1\<lparr>heap := h2,
                               relationships := map (rebind_relationship h2 cb) (relationships s1)\<rparr>;
                        s3 = update_relationship_view s2
                    in (s3\<lparr>change_label_mode := False, change_bbox := None,
                           change_old_label := None, labeled_disabled := False\<rparr>, [])))"

text \<open>\<open>sel\<close> is the selected row of the label list box, \<open>answer\<close> the answer to the one
  dialog the callback may show.\<close>

definition on_label_select :: "tool \<Rightarrow> nat option \<Rightarrow> bool \<Rightarrow> tool \<times> msg list" where
  "on_label_select s sel answer =
     (case picked (label_listbox s) sel of
        None \<Rightarrow> (s, [])
      | Some lbl \<Rightarrow>
          if change_label_mode s then change_label_to s lbl answer
          else if pending_bbox s \<noteq> None then confirm_label_assignment s lbl answer
          else (s, []))"

definition change_label :: "tool \<Rightarrow> bool \<Rightarrow> tool \<times> msg list" where
  "change_label s answer =
     (case selected_bbox s of
        None \<Rightarrow> (s, [ShowWarning ''Change Label'' ''No bounding box is selected.''])
      | Some sel \<Rightarrow>
          if create_bbox_active s \<or> attribute_add_mode s \<or> relationship_mode s
          then (s, [ShowWarning ''Change Label'' ''Cannot change label during other operations.''])
          else if \<not> answer then (s, [])
          else (s\<lparr>change_label_mode := True, change_bbox := Some sel,
                   change_old_label := Some (label_str (heap s sel)),
                   labeled_disabled := True\<rparr>,
                [ShowInfo ''Change Label''
                   ''Please double-click a new label in the imported label list to choose the new label.'']))"

subsection \<open>Attributes\<close>

definition add_attribute :: "tool \<Rightarrow> tool \<times> msg list" where
  "add_attribute s =
     (if attr_listbox s = []
      then (s, [ShowWarning ''Import Attribute List'' ''Please import attribute list before adding an attribute.''])
      else if selected_bbox s = None
      then (s, [ShowWarning ''Add Attribute'' ''Please select a bounding box first.''])
      else (s\<lparr>labeled_disabled := True, attribute_add_mode := True\<rparr>,
            [ShowInfo ''Add Attribute''
               ''Please double-click an attribute in the attribute list (Component 5) to add.'']))"

definition end_attribute_mode :: "tool \<Rightarrow> tool" where
  "end_attribute_mode s = s\<lparr>attribute_add_mode := False, labeled_disabled := False\<rparr>"

text \<open>\<open>result\<close> is the answer to "Confirm Attribute" (\<open>None\<close> is Cancel), \<open>add_more\<close> the
  answer to "Do you want to add another attribute?". Every confirmed box has the key
  \<^verbatim>\<open>'attributes'\<close>, so the first \<^verbatim>\<open>if\<close> of the callback only raises when nothing is
  selected.\<close>

definition on_attr_double_click :: "tool \<Rightarrow> nat option \<Rightarrow> bool option \<Rightarrow> bool \<Rightarrow> tool \<times> msg list" where
  "on_attr_double_click s sel result add_more =
     (if \<not> attribute_add_mode s then (s, [])
      else
        case picked (attr_listbox s) sel of
          None \<Rightarrow> (s, [])
        | Some attribute \<Rightarrow>
            (case selected_bbox s of
               None \<Rightarrow> (s, [Raised ''TypeError''])
             | Some sb \<Rightarrow>
                 if attribute \<in> set (attributes (heap s sb))
                 then (s, [ShowWarning ''Add Attribute''
                             (''The attribute '' @ [CHR 0x27] @ attribute @ [CHR 0x27]
                              @ '' is already assigned to this bbox.'')])
                 else if length (attributes (heap s sb)) \<ge> 10
                 then (end_attribute_mode s,
                       [ShowWarning ''Add Attribute''
                          ''You have already reached the limit of 10 attributes for this bbox.''])
                 else
                   (case result of
                      None \<Rightarrow> (end_attribute_mode s, [])
                    | Some True \<Rightarrow>
                        let h1 = (heap s)(sb := (heap s sb)\<lparr>attributes := attributes (heap s sb) @ [attribute]\<rparr>);
                            s1 = update_attribute_view (s\<lparr>heap := h1\<rparr>)
                        in (if \<not> add_more then end_attribute_mode s1 else s1, [])
                    | Some False \<Rightarrow>
                        (s, [ShowInfo ''Add Attribute'' ''Please choose another attribute.'']))))"

text \<open>\<open>sel\<close> is the selected row of the attribute view, \<open>answer\<close> the answer to
  "Remove Attribute". \<^verbatim>\<open>list.remove\<close> deletes the first occurrence, and the
  \<^verbatim>\<open>ValueError\<close> of a missing one is caught.\<close>

definition remove_attribute :: "tool \<Rightarrow> nat option \<Rightarrow> bool \<Rightarrow> tool \<times> msg list" where
  "remove_attribute s sel answer =
     (case picked (attribute_view s) sel of
        None \<Rightarrow> (s, [])
      | Some attribute \<Rightarrow>
          if \<not> answer then (s, [])
          else
            let s1 = (case selected_bbox s of
                        None \<Rightarrow> s
                      | Some sb \<Rightarrow>
                          s\<lparr>heap := (heap s)(sb := (heap s sb)\<lparr>attributes := remove1 attribute (attributes (heap s sb))\<rparr>)\<rparr>)
            in (update_attribute_view s1, []))"

subsection \<open>Relationships\<close>

definition add_relationship :: "tool \<Rightarrow> tool \<times> msg list" where
  "add_relationship s =
     (if rel_listbox s = []
      then (s, [ShowWarning ''Import Relationship List''
                  ''Please import relationship list before adding a relationship.''])
      else if selected_bbox s = None
      then (s, [ShowWarning ''Add Relationship'' ''No bounding box is selected as source.''])
      else (s\<lparr>labeled_disabled := True, relationship_mode := True,
               source_bbox := selected_bbox s\<rparr>,
            [ShowInfo ''Add Relationship''
               ''Please double-click a relationship in imported relationship list, then click on the target bounding box (different from the source).'']))"

definition on_relationship_selected :: "tool \<Rightarrow> nat option \<Rightarrow> tool \<times> msg list" where
  "on_relationship_selected s sel =
     (if \<not> relationship_mode s then (s, [])
      else
        case picked (rel_listbox s) sel of
          None \<Rightarrow> (s, [])
        | Some rel \<Rightarrow>
            (s\<lparr>pending_relationship := rel\<rparr>,
             [ShowInfo ''Add Relationship''
                (''Selected relationship: '' @ rel
                 @ ''. Now click on the target bounding box (different from source).'')]))"

text \<open>\<^verbatim>\<open>displayed_indices\<close> of \<^verbatim>\<open>remove_relationship\<close>.\<close>

definition displayed_indices :: "tool \<Rightarrow> nat list" where
  "displayed_indices s =
     filter (\<lambda>i. displayed s (relationships s ! i)) [0 ..< length (relationships s)]"

text \<open>\<open>sel\<close> is the selected row of the relationship view, \<open>answer\<close> the answer to
  "Remove Relationship".\<close>

definition remove_relationship :: "tool \<Rightarrow> nat option \<Rightarrow> bool \<Rightarrow> tool \<times> msg list" where
  "remove_relationship s sel answer =
     (case sel of
        None \<Rightarrow> (s, [])
      | Some index \<Rightarrow>
          if \<not> index < length (relationship_view s) then (s, [])
          else if \<not> answer then (s, [])
          else if index < length (displayed_indices s) then
            (let actual_index = displayed_indices s ! index;
                 s1 = s\<lparr>relationships := pop_at actual_index (relationships s)\<rparr>
             in case predicates s1 of
                  None \<Rightarrow> (update_relationship_view s1, [])
                | Some ps \<Rightarrow>
                    if ps = [] then (update_relationship_view s1, [])
                    else if actual_index < length ps
                    then (update_relationship_view (s1\<lparr>predicates := Some (pop_at actual_index ps)\<rparr>), [])
                    else (s1, [Raised ''IndexError'']))
          else (s, []))"

subsection \<open>Removing a box\<close>

text \<open>\<open>answer\<close> is the answer to "Remove Bounding Box". The new predicates list is built
  by reading \<^verbatim>\<open>self.predicates[idx]\<close> for every index \<^verbatim>\<open>idx\<close> of the new relationships
  list.\<close>

definition remove_bbox :: "tool \<Rightarrow> bool \<Rightarrow> tool \<times> msg list" where
  "remove_bbox s answer =
     (case selected_bbox s of
        None \<Rightarrow> (s, [])
      | Some sel \<Rightarrow>
          if \<not> answer then (s, [])
          else
            let s1 = s\<lparr>relationships :=
                         filter (\<lambda>rel. \<not> dict_eq (heap s) (fst rel) sel
                                     \<and> \<not> dict_eq (heap s) (snd (snd rel)) sel)
                           (relationships s)\<rparr>
            in if (case predicates s1 of None \<Rightarrow> False
                   | Some ps \<Rightarrow> length ps < length (relationships s1))
               then (s1, [Raised ''IndexError''])
               else
                 let s2 = s1\<lparr>predicates := map_option (take (length (relationships s1))) (predicates s1)\<rparr>;
                     h3 = (heap s2)(sel := (heap s2 sel)\<lparr>text_bg_id := None\<rparr>);
                     s3 = s2\<lparr>heap := h3\<rparr>
                 in case remove_first (\<lambda>bb. dict_eq h3 bb sel) (confirmed_bboxes s3) of
                      None \<Rightarrow> (s3, [Raised ''ValueError''])
                    | Some rest \<Rightarrow>
                        (update_attribute_view (update_relationship_view
                           (s3\<lparr>confirmed_bboxes := rest, selected_bbox := None\<rparr>)), []))"

subsection \<open>The labeled view\<close>

text \<open>\<open>entry\<close> is the text of the row the user selected in the labeled view.\<close>

definition on_labeled_select :: "tool \<Rightarrow> string option \<Rightarrow> tool" where
  "on_labeled_select s sel =
     (if create_bbox_active s \<or> attribute_add_mode s \<or> relationship_mode s then s
      else
        case sel of
          None \<Rightarrow> s
        | Some entry \<Rightarrow>
            (case find (\<lambda>bb. bbox_entry (heap s bb) = entry) (confirmed_bboxes s) of
               None \<Rightarrow> s
             | Some found_bbox \<Rightarrow>
                 if opt_eq (heap s) (selected_bbox s) (Some found_bbox)
                 then deselect_bbox s found_bbox
                 else
                   let s1 = (case selected_bbox s of
                               None \<Rightarrow> s
                             | Some old \<Rightarrow> deselect_bbox s old)
                   in select_bbox s1 found_bbox))"

subsection \<open>Context menus\<close>

datatype menu_command = AddAttribute | AddRelationship | ChangeLabel bool | RemoveBbox bool

text \<open>\<^verbatim>\<open>show_context_menu\<close> followed by the command the user picks from the menu.\<close>

definition show_context_menu :: "tool \<Rightarrow> menu_command \<Rightarrow> tool \<times> msg list" where
  "show_context_menu s cmd =
     (if selected_bbox s = None then (s, [])
      else if attribute_add_mode s \<or> relationship_mode s \<or> change_label_mode s then (s, [])
      else
        case cmd of
          AddAttribute \<Rightarrow> add_attribute s
        | AddRelationship \<Rightarrow> add_relationship s
        | ChangeLabel answer \<Rightarrow> change_label s answer
        | RemoveBbox answer \<Rightarrow> remove_bbox s answer)"

definition view_menu_blocked :: "tool \<Rightarrow> bool" where
  "view_menu_blocked s =
     (attribute_add_mode s \<or> relationship_mode s \<or> change_label_mode s \<or> create_bbox_active s)"

definition show_attribute_context_menu :: "tool \<Rightarrow> nat option \<Rightarrow> bool \<Rightarrow> tool \<times> msg list" where
  "show_attribute_context_menu s sel answer =
     (if view_menu_blocked s then (s, []) else remove_attribute s sel answer)"

definition show_relationship_context_menu :: "tool \<Rightarrow> nat option \<Rightarrow> bool \<Rightarrow> tool \<times> msg list" where
  "show_relationship_context_menu s sel answer =
     (if view_menu_blocked s then (s, []) else remove_relationship s sel answer)"

subsection \<open>Vocabularies\<close>

text \<open>\<^verbatim>\<open>{name: int(i + 1) for i, name in enumerate(names)}\<close>: a later duplicate wins.\<close>

fun enum_mapping :: "string list \<Rightarrow> int \<Rightarrow> (string \<rightharpoonup> int) \<Rightarrow> (string \<rightharpoonup> int)" where
  "enum_mapping [] i m = m"
| "enum_mapping (name # names) i m = enum_mapping names (i + 1) (m(name \<mapsto> i))"

text \<open>The inputs of an import: the chosen path (empty when the dialog is cancelled),
  whether the JSON file exists and the user's answer then, the lines read (or the
  exception), and the exception of writing the JSON file, if any.\<close>

datatype import_input =
  ImportInput string bool bool "string + string list" "string option"

definition import_list ::
  "string \<Rightarrow> import_input \<Rightarrow> (string list \<Rightarrow> (string \<rightharpoonup> int) \<Rightarrow> tool) \<Rightarrow> tool \<Rightarrow> tool \<times> msg list" where
  "import_list title inp store s =
     (case inp of ImportInput file_path exists proceed lines write_error \<Rightarrow>
        if file_path = [] then (s, [])
        else if exists \<and> \<not> proceed then (s, [])
        else
          case lines of
            Inl e \<Rightarrow> (s, [ShowError title e])
          | Inr names \<Rightarrow>
              (store names (enum_mapping names 1 Map.empty),
               case write_error of None \<Rightarrow> [] | Some e \<Rightarrow> [ShowError title e]))"

definition import_label_list :: "tool \<Rightarrow> import_input \<Rightarrow> tool \<times> msg list" where
  "import_label_list s inp =
     import_list ''Import Label List Error'' inp
       (\<lambda>names m. s\<lparr>label_listbox := names, labels_mapping := Some m\<rparr>) s"

definition import_attribute_list :: "tool \<Rightarrow> import_input \<Rightarrow> tool \<times> msg list" where
  "import_attribute_list s inp =
     import_list ''Import Attribute List Error'' inp
       (\<lambda>names m. s\<lparr>attr_listbox := names, attributes_mapping := Some m\<rparr>) s"

definition import_relationship_list :: "tool \<Rightarrow> import_input \<Rightarrow> tool \<times> msg list" where
  "import_relationship_list s inp =
     import_list ''Import Relationship List Error'' inp
       (\<lambda>names m. s\<lparr>rel_listbox := names, relationships_mapping := Some m\<rparr>) s"

text \<open>\<^verbatim>\<open>_auto_load_imported_files\<close>, for one of the three files: \<open>None\<close> when the file
  does not exist, \<open>Inl\<close> the exception of reading it, \<open>Inr\<close> the items of the
  dictionary it holds (names to ids, as an import wrote them).\<close>

type_synonym saved = "(string + (string \<times> int) list) option"

definition auto_load_imported_files :: "tool \<Rightarrow> saved \<Rightarrow> saved \<Rightarrow> saved \<Rightarrow> tool \<times> msg list" where
  "auto_load_imported_files s labels_file attr_file rel_file =
     (let (s1, m1) =
            (case labels_file of
               None \<Rightarrow> (s, [])
             | Some (Inl e) \<Rightarrow> (s, [ShowError ''Load Label List'' e])
             | Some (Inr kvs) \<Rightarrow>
                 (s\<lparr>labels_mapping := Some (map_of kvs),
                    label_listbox := map fst (sort_key snd kvs)\<rparr>, []));
          (s2, m2) =
            (case attr_file of
               None \<Rightarrow> (s1, [])
             | Some (Inl e) \<Rightarrow> (s1, [ShowError ''Load Attribute List'' e])
             | Some (Inr kvs) \<Rightarrow>
                 (s1\<lparr>attributes_mapping := Some (map_of kvs),
                     attr_listbox := map fst (sort_key snd kvs)\<rparr>, []));
          (s3, m3) =
            (case rel_file of
               None \<Rightarrow> (s2, [])
             | Some (Inl e) \<Rightarrow> (s2, [ShowError ''Load Relationship List'' e])
             | Some (Inr kvs) \<Rightarrow>
                 (s2\<lparr>relationships_mapping := Some (map_of kvs),
                     rel_listbox := map fst (sort_key snd kvs)\<rparr>, []))
      in (s3, m1 @ m2 @ m3))"

subsection \<open>The initial state and the events\<close>

text \<open>The content of a store cell before a box is allocated there is never read.\<close>

definition no_bbox :: bbox where
  "no_bbox = \<lparr>rect_id = 0, coords = (0, 0, 0, 0), label = 0, inst_id = 0, label_str = [],
              text_id = 0, selected = False, attributes = [], text_bg_id = None\<rparr>"

text \<open>The assignments of \<^verbatim>\<open>__init__\<close>; canvas item ids start at 1.\<close>

definition initial :: tool where
  "initial =
     \<lparr>loaded_image = None, image_area = None, image_path = None,
      create_bbox_active = False, handling_new_bbox = False,
      start_x = None, start_y = None, temp_rect = None, pending_bbox = None,
      heap = (\<lambda>r. no_bbox), next_ref = 0, next_item = 1,
      confirmed_bboxes = [], label_counts = Map.empty, selected_bbox = None,
      change_label_mode = False, change_bbox = None, change_old_label = None,
      attribute_add_mode = False, relationship_mode = False, source_bbox = None,
      pending_relationship = [], relationships = [], predicates = None,
      labels_mapping = None, attributes_mapping = None, relationships_mapping = None,
      label_listbox = [], attr_listbox = [], rel_listbox = [],
      labeled_disabled = False, labeled_bound = True,
      attribute_view = [], relationship_view = [], dragging_handle = None\<rparr>"

datatype event =
    CanvasClick int int bool
  | MouseUp int int
  | HandlePress item int int
  | HandleDrag int int
  | HandleRelease
  | OpenImage string open_outcome
  | ToggleCreateBbox
  | LabelSelect "nat option" bool
  | AttrDoubleClick "nat option" "bool option" bool
  | RelationshipSelected "nat option"
  | LabeledSelect "string option"
  | ContextMenu menu_command
  | AttributeMenu "nat option" bool
  | RelationshipMenu "nat option" bool
  | ImportLabels import_input
  | ImportAttributes import_input
  | ImportRelationships import_input

text \<open>The dispatch of an event to its callback. A handle callback runs for a handle
  that exists; \<^verbatim>\<open><<ListboxSelect>>\<close> of the labeled view reaches \<open>on_labeled_select\<close>
  while the callback is bound and the list box is not disabled.\<close>

fun step :: "tool \<Rightarrow> event \<Rightarrow> tool \<times> msg list" where
  "step s (CanvasClick x y confirm) = on_canvas_click s x y confirm"
| "step s (MouseUp x y) = on_mouse_up s x y"
| "step s (HandlePress handle_id x y) =
     (if handle_key_of s handle_id = None then (s, []) else (on_handle_press s handle_id x y, []))"
| "step s (HandleDrag x y) = (on_handle_drag s x y, [])"
| "step s HandleRelease = (on_handle_release s, [])"
| "step s (OpenImage file_path outcome) = open_image s file_path outcome"
| "step s ToggleCreateBbox = toggle_create_bbox s"
| "step s (LabelSelect sel answer) = on_label_select s sel answer"
| "step s (AttrDoubleClick sel result add_more) = on_attr_double_click s sel result add_more"
| "step s (RelationshipSelected sel) = on_relationship_selected s sel"
| "step s (LabeledSelect sel) =
     (if labeled_bound s \<and> \<not> labeled_disabled s then (on_labeled_select s sel, []) else (s, []))"
| "step s (ContextMenu cmd) = show_context_menu s cmd"
| "step s (AttributeMenu sel answer) = show_attribute_context_menu s sel answer"
| "step s (RelationshipMenu sel answer) = show_relationship_context_menu s sel answer"
| "step s (ImportLabels inp) = import_label_list s inp"
| "step s (ImportAttributes inp) = import_attribute_list s inp"
| "step s (ImportRelationships inp) = import_relationship_list s inp"

fun run :: "tool \<Rightarrow> event list \<Rightarrow> tool" where
  "run s [] = s"
| "run s (e # es) = run (fst (step s e)) es"

text \<open>The states of a session: after start-up, and after any event.\<close>

inductive reachable :: "tool \<Rightarrow> bool" where
  start: "reachable (fst (auto_load_imported_files initial labels_file attr_file rel_file))"
| after: "reachable s \<Longrightarrow> reachable (fst (step s e))"

subsection \<open>A sample session\<close>

text \<open>Three vocabularies are imported, an image is opened and three boxes are drawn and
  labelled: \<open>car:1\<close>, \<open>truck:1\<close> (overlapping the first, and smaller) and \<open>car:2\<close>.\<close>

definition setup_events :: "event list" where
  "setup_events =
     [ImportLabels (ImportInput ''labels.txt'' False False (Inr [''car'', ''truck'']) None),
      ImportRelationships (ImportInput ''rels.txt'' False False (Inr [''on'', ''near'']) None),
      ImportAttributes (ImportInput ''attrs.txt'' False False (Inr [''red'', ''big'']) None),
      OpenImage ''a.png'' (Opened (2000, 1000) 1200 800 1200 600),
      ToggleCreateBbox,
      CanvasClick 100 200 False, MouseUp 300 400, LabelSelect (Some 0) True,
      CanvasClick 250 350 False, MouseUp 450 500, LabelSelect (Some 1) True,
      CanvasClick 500 200 False, MouseUp 700 400, LabelSelect (Some 0) True,
      ToggleCreateBbox]"

definition box_a :: bbox where
  "box_a = \<lparr>rect_id = 2, coords = (100, 200, 300, 400), label = 1, inst_id = 1,
     label_str = ''car'', text_id = 11, selected = False, attributes = [],
     text_bg_id = None\<rparr>"

definition box_b :: bbox where
  "box_b = \<lparr>rect_id = 12, coords = (250, 350, 450, 500), label = 2, inst_id = 1,
     label_str = ''truck'', text_id = 21, selected = False, attributes = [],
     text_bg_id = None\<rparr>"

definition box_c :: bbox where
  "box_c = \<lparr>rect_id = 22, coords = (500, 200, 700, 400), label = 1, inst_id = 2,
     label_str = ''car'', text_id = 31, selected = False, attributes = [],
     text_bg_id = None\<rparr>"

definition session0 :: tool where
  "session0 =
   \<lparr>loaded_image = Some (2000, 1000), image_area = Some (0, 100, 1200, 600),
    image_path = Some ''a.png'', create_bbox_active = False,
    handling_new_bbox = False, start_x = Some 500, start_y = Some 200,
    temp_rect = None, pending_bbox = None,
    heap = (\<lambda>r. no_bbox)(0 := box_a, 1 := box_b, 2 := box_c), next_ref = 3,
    next_item = 32, confirmed_bboxes = [0, 1, 2],
    label_counts = [''car'' \<mapsto> 2, ''truck'' \<mapsto> 1],
    selected_bbox = None, change_label_mode = False, change_bbox = None,
    change_old_label = None, attribute_add_mode = False,
    relationship_mode = False, source_bbox = None,
    pending_relationship = [], relationships = [], predicates = None,
    labels_mapping = Some [''car'' \<mapsto> 1, ''truck'' \<mapsto> 2],
    attributes_mapping = Some [''red'' \<mapsto> 1, ''big'' \<mapsto> 2],
    relationships_mapping = Some [''on'' \<mapsto> 1, ''near'' \<mapsto> 2],
    label_listbox = [''car'', ''truck''],
    attr_listbox = [''red'', ''big''], rel_listbox = [''on'', ''near''],
    labeled_disabled = False, labeled_bound = True, attribute_view = [],
    relationship_view = [], dragging_handle = None\<rparr>"

subsection \<open>Invariants of a session\<close>

text \<open>The predicates list as \<^verbatim>\<open>save_data\<close> reads it: empty while the attribute is
  missing.\<close>

definition predicates_list :: "tool \<Rightarrow> int list" where
  "predicates_list s = (case predicates s of None \<Rightarrow> [] | Some ps \<Rightarrow> ps)"

definition aligned :: "tool \<Rightarrow> bool" where
  "aligned s = (length (relationships s) = length (predicates_list s))"

definition attrs_ok :: "string list \<Rightarrow> bool" where
  "attrs_ok xs = (length xs \<le> 10 \<and> distinct xs)"

definition modes_ok :: "tool \<Rightarrow> bool" where
  "modes_ok s =
     ((relationship_mode s \<longrightarrow> selected_bbox s \<noteq> None \<and> source_bbox s = selected_bbox s)
      \<and> (selected_bbox s \<noteq> None \<longrightarrow> \<not> create_bbox_active s))"

text \<open>In change-label mode there is a box to change, and \<^verbatim>\<open>change_old_label\<close> is its
  label; a label can only be picked from a list box that came with a mapping.\<close>

definition change_ok :: "tool \<Rightarrow> bool" where
  "change_ok s =
     (change_label_mode s \<longrightarrow>
        change_bbox s \<noteq> None
        \<and> change_old_label s = map_option (\<lambda>cb. label_str (heap s cb)) (change_bbox s))"

definition labels_ok :: "tool \<Rightarrow> bool" where
  "labels_ok s = (label_listbox s \<noteq> [] \<longrightarrow> labels_mapping s \<noteq> None)"

definition session_inv :: "tool \<Rightarrow> bool" where
  "session_inv s =
     (aligned s \<and> (\<forall>r. attrs_ok (attributes (heap s r))) \<and> modes_ok s
      \<and> change_ok s \<and> labels_ok s)"

text \<open>In the sample session: \<open>car:1\<close> is selected and gets the edge \<open>on\<close> to \<open>truck:1\<close>;
  it is deselected, \<open>car:2\<close> is selected and gets the edge \<open>near\<close> to \<open>truck:1\<close>; it is
  deselected and \<open>car:1\<close> is selected again.\<close>

definition edge_events :: "event list" where
  "edge_events =
     [CanvasClick 110 210 False, ContextMenu AddRelationship, RelationshipSelected (Some 0),
      CanvasClick 400 450 True,
      CanvasClick 110 210 False,
      CanvasClick 510 210 False, ContextMenu AddRelationship, RelationshipSelected (Some 1),
      CanvasClick 400 450 True,
      CanvasClick 510 210 False,
      CanvasClick 110 210 False]"

definition session2 :: tool where
  "session2 =
     session0\<lparr>heap := (heap session0)(0 := box_a\<lparr>selected := True, text_bg_id := Some 34\<rparr>),
              next_item := 35, selected_bbox := Some 0,
              relationships := [(0, ''on'', 1), (2, ''near'', 1)],
              predicates := Some [1, 2],
              relationship_view := [''car:1 --- on --- truck:1'']\<rparr>"

text \<open>In the sample session: \<open>car:1\<close> is selected and gets the attribute \<open>red\<close>.\<close>

definition attr_events :: "event list" where
  "attr_events =
     [CanvasClick 110 210 False, ContextMenu AddAttribute, AttrDoubleClick (Some 0) (Some True) False]"

definition session_attr :: tool where
  "session_attr =
     session0\<lparr>heap := (heap session0)(0 := box_a\<lparr>selected := True, text_bg_id := Some 32,
                                                  attributes := [''red'']\<rparr>),
              next_item := 33, selected_bbox := Some 0,
              attribute_view := [''red'']\<rparr>"

text \<open>In the sample session: \<open>car:1\<close> is selected, "Add Relationship" is chosen from the
  context menu and the relationship \<open>on\<close> is picked.\<close>

definition rel_events :: "event list" where
  "rel_events =
     [CanvasClick 110 210 False, ContextMenu AddRelationship, RelationshipSelected (Some 0)]"

definition session_rel :: tool where
  "session_rel =
     session0\<lparr>heap := (heap session0)(0 := box_a\<lparr>selected := True, text_bg_id := Some 32\<rparr>),
              next_item := 33, selected_bbox := Some 0,
              relationship_mode := True, source_bbox := Some 0,
              pending_relationship := ''on'', labeled_disabled := True\<rparr>"

text \<open>The same, after the edge \<open>car:1 on truck:1\<close> has been added by a click at
  \<open>(400, 450)\<close> and confirmed.\<close>

definition dup_events :: "event list" where
  "dup_events =
     [CanvasClick 110 210 False, ContextMenu AddRelationship, RelationshipSelected (Some 0),
      CanvasClick 400 450 True,
      ContextMenu AddRelationship, RelationshipSelected (Some 0)]"

definition session_dup :: tool where
  "session_dup =
     session_rel\<lparr>relationships := [(0, ''on'', 1)], predicates := Some [1],
                 relationship_view := [''car:1 --- on --- truck:1'']\<rparr>"

text \<open>In the sample session with its two edges: "Change Label" is chosen for the
  selected box \<open>car:1\<close> and confirmed.\<close>

definition chg_events :: "event list" where
  "chg_events = [ContextMenu (ChangeLabel True)]"

definition session_chg :: tool where
  "session_chg =
     session2\<lparr>change_label_mode := True, change_bbox := Some 0,
              change_old_label := Some ''car'', labeled_disabled := True\<rparr>"

text \<open>The state after a label was picked in the label list box and the dialog
  confirmed.\<close>

definition after_label_select :: "tool \<Rightarrow> nat option \<Rightarrow> tool" where
  "after_label_select s sel = fst (on_label_select s sel True)"

subsection \<open>Instance ids along a session\<close>

text \<open>An event resets the per-label counters when it is \<^verbatim>\<open>open_image\<close> with a chosen
  file. An event confirms a pending box under a label, or relabels a box to a label, when
  it is a confirmed pick of that label in the label list box, outside respectively
  inside change-label mode.\<close>

fun resets :: "event \<Rightarrow> bool" where
  "resets (OpenImage file_path outcome) = (file_path \<noteq> [])"
| "resets _ = False"

fun confirms :: "tool \<Rightarrow> event \<Rightarrow> string \<Rightarrow> bool" where
  "confirms s (LabelSelect sel answer) lbl =
     (answer \<and> picked (label_listbox s) sel = Some lbl
      \<and> \<not> change_label_mode s \<and> pending_bbox s \<noteq> None)"
| "confirms s _ lbl = False"

fun relabels :: "tool \<Rightarrow> event \<Rightarrow> string \<Rightarrow> bool" where
  "relabels s (LabelSelect sel answer) lbl =
     (answer \<and> picked (label_listbox s) sel = Some lbl
      \<and> change_label_mode s \<and> change_old_label s \<noteq> Some lbl)"
| "relabels s _ lbl = False"

text \<open>The number of confirmations under a label, and of label changes to it, along the
  events that follow a state.\<close>

fun confirmations :: "tool \<Rightarrow> event list \<Rightarrow> string \<Rightarrow> nat" where
  "confirmations s [] lbl = 0"
| "confirmations s (e # es) lbl =
     (if confirms s e lbl then 1 else 0) + confirmations (fst (step s e)) es lbl"

fun relabelings :: "tool \<Rightarrow> event list \<Rightarrow> string \<Rightarrow> nat" where
  "relabelings s [] lbl = 0"
| "relabelings s (e # es) lbl =
     (if relabels s e lbl then 1 else 0) + relabelings (fst (step s e)) es lbl"

text \<open>The instance id and the label of the box confirmed last.\<close>

definition new_box_id :: "tool \<Rightarrow> int" where
  "new_box_id s = inst_id (heap s (last (confirmed_bboxes s)))"

definition new_box_label :: "tool \<Rightarrow> string" where
  "new_box_label s = label_str (heap s (last (confirmed_bboxes s)))"

text \<open>In the sample session: create mode is switched on and a fourth box is drawn; it
  is then confirmed as \<open>car\<close>. After that, create mode is switched off, \<open>truck:1\<close> is
  selected and its label changed to \<open>car\<close>, it is deselected, create mode is switched on
  and a fifth box is drawn; it is then confirmed as \<open>car\<close>.\<close>

definition draw_events :: "event list" where
  "draw_events = [ToggleCreateBbox, CanvasClick 800 150 False, MouseUp 900 300]"

definition session_c1 :: tool where
  "session_c1 =
     session0\<lparr>create_bbox_active := True, handling_new_bbox := True,
              start_x := Some 800, start_y := Some 150,
              pending_bbox := Some \<lparr>p_rect_id = 32, p_coords = (800, 150, 900, 300),
                                    handles = Some (create_handles 33)\<rparr>,
              next_item := 41, labeled_bound := False\<rparr>"

definition between_events :: "event list" where
  "between_events =
     [ToggleCreateBbox, CanvasClick 440 490 False, ContextMenu (ChangeLabel True),
      LabelSelect (Some 0) True, CanvasClick 440 490 False,
      ToggleCreateBbox, CanvasClick 800 400 False, MouseUp 900 550]"

definition box_d :: bbox where
  "box_d = \<lparr>rect_id = 32, coords = (800, 150, 900, 300), label = 1, inst_id = 3,
     label_str = ''car'', text_id = 41, selected = False, attributes = [],
     text_bg_id = None\<rparr>"

definition session_c2 :: tool where
  "session_c2 =
     session0\<lparr>create_bbox_active := True, handling_new_bbox := True,
              start_x := Some 800, start_y := Some 400,
              pending_bbox := Some \<lparr>p_rect_id = 43, p_coords = (800, 400, 900, 550),
                                    handles = Some (create_handles 44)\<rparr>,
              heap := (heap session0)(1 := box_b\<lparr>label := 1, inst_id := 4, label_str := ''car''\<rparr>,
                                      3 := box_d),
              next_ref := 4, next_item := 52, confirmed_bboxes := [0, 1, 2, 3],
              label_counts := [''car'' \<mapsto> 4, ''truck'' \<mapsto> 1],
              labeled_bound := False\<rparr>"

section \<open>Properties\<close>

subsection \<open>The hit-test loop\<close>

lemma smallest_scan_acc_Some:
  "acc \<noteq> None \<Longrightarrow> smallest_scan h x y bbs acc \<noteq> None"
  by (induction bbs arbitrary: acc) (auto simp: Let_def split: option.splits)

lemma smallest_scan_None:
  "smallest_scan h x y bbs acc = None \<longleftrightarrow>
     acc = None \<and> (\<forall>b \<in> set bbs. \<not> contains (coords (h b)) x y)"
proof (induction bbs arbitrary: acc)
  case Nil
  then show ?case by simp
next
  case (Cons bb bbs)
  show ?case
  proof (cases "contains (coords (h bb)) x y")
    case False
    then show ?thesis using Cons.IH by simp
  next
    case True
    have "smallest_scan h x y (bb # bbs) acc \<noteq> None"
      using True smallest_scan_acc_Some[of _ h x y bbs]
      by (cases acc) (auto simp: Let_def)
    then show ?thesis using True by simp
  qed
qed

lemma smallest_scan_Some:
  assumes "smallest_scan h x y bbs acc = Some (r, a)"
    and "\<And>r0 a0. acc = Some (r0, a0) \<Longrightarrow> a0 = area (coords (h r0)) \<and> contains (coords (h r0)) x y"
  shows "a = area (coords (h r)) \<and> contains (coords (h r)) x y
       \<and> (r \<in> set bbs \<or> acc = Some (r, a))
       \<and> (\<forall>b \<in> set bbs. contains (coords (h b)) x y \<longrightarrow> a \<le> area (coords (h b)))
       \<and> (\<forall>r0 a0. acc = Some (r0, a0) \<longrightarrow> a \<le> a0)"
  using assms
proof (induction bbs arbitrary: acc)
  case Nil
  then show ?case by auto
next
  case (Cons bb bbs)
  show ?case
  proof (cases "contains (coords (h bb)) x y")
    case False
    with Cons.prems have "smallest_scan h x y bbs acc = Some (r, a)" by simp
    from Cons.IH[OF this Cons.prems(2)] False show ?thesis by auto
  next
    case True
    show ?thesis
    proof (cases acc)
      case None
      with True Cons.prems have "smallest_scan h x y bbs (Some (bb, area (coords (h bb)))) = Some (r, a)"
        by (simp add: Let_def)
      from Cons.IH[OF this] True None show ?thesis by auto
    next
      case (Some p)
      obtain r0 a0 where p: "p = (r0, a0)" by (cases p)
      show ?thesis
      proof (cases "area (coords (h bb)) < a0")
        case lt: True
        with True Some p Cons.prems have "smallest_scan h x y bbs (Some (bb, area (coords (h bb)))) = Some (r, a)"
          by (simp add: Let_def)
        from Cons.IH[OF this] True Some p lt show ?thesis by auto
      next
        case ge: False
        with True Some p Cons.prems have "smallest_scan h x y bbs acc = Some (r, a)"
          by (simp add: Let_def)
        from Cons.IH[OF this Cons.prems(2)] True Some p ge show ?thesis by auto
      qed
    qed
  qed
qed

subsection \<open>The session invariant\<close>

lemmas inv_defs = session_inv_def aligned_def predicates_list_def modes_ok_def change_ok_def
  labels_ok_def
lemmas view_defs = update_relationship_view_def update_attribute_view_def

lemma inv_update_relationship_view:
  "session_inv (update_relationship_view s) = session_inv s"
  by (simp add: inv_defs update_relationship_view_def)

lemma inv_update_attribute_view:
  "session_inv (update_attribute_view s) = session_inv s"
  by (simp add: inv_defs update_attribute_view_def)

lemma inv_deselect_bbox:
  "session_inv s \<Longrightarrow> \<not> relationship_mode s \<Longrightarrow> session_inv (deselect_bbox s b)"
  by (cases "change_bbox s") (auto simp: deselect_bbox_def Let_def inv_defs view_defs)

lemma flags_deselect_bbox [simp]:
  "relationship_mode (deselect_bbox s b) = relationship_mode s"
  "create_bbox_active (deselect_bbox s b) = create_bbox_active s"
  "attribute_add_mode (deselect_bbox s b) = attribute_add_mode s"
  by (simp_all add: deselect_bbox_def Let_def update_relationship_view_def update_attribute_view_def)

lemma inv_select_bbox:
  "session_inv s \<Longrightarrow> session_inv (select_bbox s b)"
proof (cases "create_bbox_active s \<or> attribute_add_mode s \<or> relationship_mode s")
  case True
  then show "session_inv s \<Longrightarrow> ?thesis" by (simp add: select_bbox_def)
next
  case False
  assume inv: "session_inv s"
  define s1 where "s1 = (case selected_bbox s of None \<Rightarrow> s | Some old \<Rightarrow> if old \<noteq> b then deselect_bbox s old else s)"
  have 1: "session_inv s1" and 2: "\<not> relationship_mode s1" and 3: "\<not> create_bbox_active s1"
    using inv False by (auto simp: s1_def inv_deselect_bbox split: option.splits)
  have "select_bbox s b = update_attribute_view (update_relationship_view
          (s1\<lparr>heap := (heap s1)(b := (heap s1 b)\<lparr>selected := True, text_bg_id := Some (next_item s1)\<rparr>),
              selected_bbox := Some b, next_item := Suc (next_item s1)\<rparr>))"
    using False by (simp add: select_bbox_def s1_def Let_def)
  then show ?thesis using 1 2 3 by (cases "change_bbox s1") (auto simp: inv_defs view_defs)
qed

lemma flags_select_bbox [simp]:
  "relationship_mode (select_bbox s b) = relationship_mode s"
  by (simp add: select_bbox_def Let_def update_relationship_view_def update_attribute_view_def split: option.splits)


lemma inv_click_target:
  "session_inv s \<Longrightarrow> session_inv (fst (click_target s x y c))"
  by (auto simp: click_target_def end_relationship_mode_def inv_defs view_defs Let_def
           split: option.splits)

lemma inv_on_canvas_click:
  assumes inv: "session_inv s"
  shows "session_inv (fst (on_canvas_click s x y c))"
proof (cases "create_bbox_active s")
  case True
  then show ?thesis using inv by (auto simp: on_canvas_click_def inv_defs)
next
  case nc: False
  let ?cl = "get_confirmed_bbox_at s x y"
  show ?thesis
  proof (cases "(attribute_add_mode s \<or> relationship_mode s \<or> change_label_mode s)
                  \<and> opt_eq (heap s) ?cl (selected_bbox s)")
    case True
    then show ?thesis using inv nc by (simp add: on_canvas_click_def)
  next
    case False
    define s1 where "s1 = (case ?cl of None \<Rightarrow> s
                    | Some c \<Rightarrow>
                        if selected_bbox s = None then select_bbox s c
                        else if opt_eq (heap s) (selected_bbox s) (Some c) then deselect_bbox s c
                        else s)"
    have eq: "on_canvas_click s x y c = (if relationship_mode s1 then click_target s1 x y c else (s1, []))"
      by (simp only: on_canvas_click_def s1_def Let_def if_not_P[OF nc] if_not_P[OF False])
    have "session_inv s1"
    proof (cases ?cl)
      case None
      then show ?thesis using inv by (simp add: s1_def)
    next
      case (Some b)
      show ?thesis
      proof (cases "selected_bbox s")
        case None
        then show ?thesis using Some inv by (simp add: s1_def inv_select_bbox)
      next
        case (Some a)
        have "?cl = Some a" using Some \<open>?cl = Some b\<close>
          by (auto simp: get_confirmed_bbox_at_def split: if_splits)
        then have "\<not> relationship_mode s" using False Some by (auto simp: dict_eq_def)
        then show ?thesis using Some \<open>?cl = Some b\<close> inv by (simp add: s1_def inv_deselect_bbox)
      qed
    qed
    then show ?thesis by (simp add: eq inv_click_target)
  qed
qed

lemma inv_on_mouse_up: "session_inv s \<Longrightarrow> session_inv (fst (on_mouse_up s x y))"
  by (auto simp: on_mouse_up_def inv_defs split: option.splits prod.splits)

lemma inv_on_handle_drag: "session_inv s \<Longrightarrow> session_inv (on_handle_drag s x y)"
  by (auto simp: on_handle_drag_def inv_defs Let_def split: option.splits prod.splits)

lemma inv_clear_session:
  "session_inv (clear_session s p) \<longleftrightarrow> (\<forall>r. attrs_ok (attributes (heap s r))) \<and> labels_ok s"
  by (cases "predicates s") (simp_all add: clear_session_def inv_defs view_defs Let_def)

lemma inv_open_image: "session_inv s \<Longrightarrow> session_inv (fst (open_image s p outcome))"
proof -
  assume inv: "session_inv s"
  then have "(\<forall>r. attrs_ok (attributes (heap s r))) \<and> labels_ok s" by (simp add: session_inv_def)
  then have c: "session_inv (clear_session s p)" by (simp add: inv_clear_session)
  have f: "relationships (clear_session s p) = []" "predicates_list (clear_session s p) = []"
    "\<not> relationship_mode (clear_session s p)" "\<not> create_bbox_active (clear_session s p)"
    by (cases "predicates s"; simp add: clear_session_def view_defs Let_def predicates_list_def)+
  show ?thesis
  proof (cases "p = []")
    case True
    then show ?thesis using inv by (simp add: open_image_def)
  next
    case False
    then show ?thesis using c f
      by (cases outcome)
         (simp_all add: open_image_def Let_def session_inv_def aligned_def modes_ok_def
            predicates_list_def change_ok_def labels_ok_def)
  qed
qed

lemma inv_toggle_create_bbox: "session_inv s \<Longrightarrow> session_inv (fst (toggle_create_bbox s))"
  by (auto simp: toggle_create_bbox_def inv_defs)

lemma inv_confirm_label_assignment:
  "session_inv s \<Longrightarrow> \<not> change_label_mode s
   \<Longrightarrow> session_inv (fst (confirm_label_assignment s lbl answer))"
  by (auto simp: confirm_label_assignment_def inv_defs Let_def attrs_ok_def split: option.splits)

lemma inv_change_label_to:
  "session_inv s \<Longrightarrow> session_inv (fst (change_label_to s lbl answer))"
  by (auto simp: change_label_to_def inv_defs view_defs Let_def split: option.splits)

lemma inv_on_label_select:
  "session_inv s \<Longrightarrow> session_inv (fst (on_label_select s sel answer))"
  by (simp add: on_label_select_def inv_confirm_label_assignment inv_change_label_to
           split: option.splits)

lemma inv_change_label: "session_inv s \<Longrightarrow> session_inv (fst (change_label s answer))"
  by (auto simp: change_label_def inv_defs split: option.splits)

lemma inv_add_attribute: "session_inv s \<Longrightarrow> session_inv (fst (add_attribute s))"
  by (auto simp: add_attribute_def inv_defs)

lemma inv_on_attr_double_click:
  "session_inv s \<Longrightarrow> session_inv (fst (on_attr_double_click s sel result add_more))"
  by (auto simp: on_attr_double_click_def end_attribute_mode_def inv_defs view_defs Let_def attrs_ok_def
           split: option.splits bool.splits)

lemma inv_remove_attribute:
  "session_inv s \<Longrightarrow> session_inv (fst (remove_attribute s sel answer))"
proof -
  have le: "\<And>a xs. length (remove1 a xs) \<le> length (xs :: string list)"
    by (simp add: length_remove1)
  assume "session_inv s"
  then show ?thesis
    using le
    by (auto simp: remove_attribute_def inv_defs view_defs Let_def attrs_ok_def
             split: option.splits intro: order_trans)
qed

lemma inv_add_relationship: "session_inv s \<Longrightarrow> session_inv (fst (add_relationship s))"
  by (auto simp: add_relationship_def inv_defs)

lemma inv_on_relationship_selected:
  "session_inv s \<Longrightarrow> session_inv (fst (on_relationship_selected s sel))"
  by (auto simp: on_relationship_selected_def inv_defs split: option.splits)


lemma displayed_indices_bound:
  "i < length (displayed_indices s) \<Longrightarrow> displayed_indices s ! i < length (relationships s)"
proof -
  assume "i < length (displayed_indices s)"
  then have "displayed_indices s ! i \<in> set (displayed_indices s)" by (rule nth_mem)
  then show ?thesis by (simp add: displayed_indices_def)
qed

lemma length_pop_at: "i < length xs \<Longrightarrow> length (pop_at i xs) = length xs - 1"
  by (simp add: pop_at_def)

lemma inv_remove_relationship:
  assumes inv: "session_inv s"
  shows "session_inv (fst (remove_relationship s sel answer))"
proof (cases "\<exists>index. sel = Some index \<and> index < length (relationship_view s) \<and> answer
                 \<and> index < length (displayed_indices s)")
  case False
  then show ?thesis using inv
    by (auto simp: remove_relationship_def split: option.splits)
next
  case True
  then obtain index where sel: "sel = Some index" and i1: "index < length (relationship_view s)"
    and ans: answer and i2: "index < length (displayed_indices s)" by blast
  let ?a = "displayed_indices s ! index"
  have a: "?a < length (relationships s)" using i2 by (rule displayed_indices_bound)
  then obtain ps where ps: "predicates s = Some ps" and len: "length ps = length (relationships s)"
    using inv by (cases "predicates s") (auto simp: inv_defs)
  have "ps \<noteq> []" using a len by auto
  then have "fst (remove_relationship s sel answer) =
      update_relationship_view (s\<lparr>relationships := pop_at ?a (relationships s),
                                  predicates := Some (pop_at ?a ps)\<rparr>)"
    using sel i1 ans i2 ps a len by (simp add: remove_relationship_def Let_def)
  then show ?thesis using inv a len ps
    by (simp add: inv_defs view_defs length_pop_at)
qed

lemma inv_remove_bbox:
  assumes inv: "session_inv s" and nr: "\<not> relationship_mode s"
  shows "session_inv (fst (remove_bbox s answer))"
proof (cases "selected_bbox s")
  case None
  then show ?thesis using inv by (simp add: remove_bbox_def)
next
  case (Some sel)
  let ?keep = "\<lambda>rel. \<not> dict_eq (heap s) (fst rel) sel \<and> \<not> dict_eq (heap s) (snd (snd rel)) sel"
  have le: "length (filter ?keep (relationships s)) \<le> length (relationships s)"
    by (rule length_filter_le)
  show ?thesis
    using inv nr le Some
    by (cases "predicates s")
       (auto simp: remove_bbox_def inv_defs view_defs Let_def split: option.splits)
qed

lemma inv_on_labeled_select:
  assumes inv: "session_inv s"
  shows "session_inv (on_labeled_select s sel)"
proof (cases "create_bbox_active s \<or> attribute_add_mode s \<or> relationship_mode s")
  case True
  then show ?thesis using inv by (simp add: on_labeled_select_def)
next
  case False
  then have nr: "\<not> relationship_mode s" by simp
  have d: "\<And>b. session_inv (deselect_bbox s b)" using inv nr by (rule inv_deselect_bbox)
  show ?thesis using False inv d
    by (auto simp: on_labeled_select_def Let_def inv_select_bbox split: option.splits)
qed

lemma inv_show_context_menu:
  "session_inv s \<Longrightarrow> session_inv (fst (show_context_menu s cmd))"
  by (cases cmd)
     (auto simp: show_context_menu_def inv_add_attribute inv_add_relationship inv_change_label
                 inv_remove_bbox)

lemma inv_import_list:
  assumes "session_inv s" and "\<And>names m. session_inv (store names m)"
  shows "session_inv (fst (import_list title inp store s))"
  using assms by (cases inp) (auto simp: import_list_def split: sum.splits)

lemma inv_step:
  assumes inv: "session_inv s"
  shows "session_inv (fst (step s e))"
proof (cases e)
  case (ImportLabels inp)
  have "\<And>names m. session_inv (s\<lparr>label_listbox := names, labels_mapping := Some m\<rparr>)"
    using inv by (simp add: inv_defs)
  then show ?thesis using inv ImportLabels by (simp add: import_label_list_def inv_import_list)
next
  case (ImportAttributes inp)
  have "\<And>names m. session_inv (s\<lparr>attr_listbox := names, attributes_mapping := Some m\<rparr>)"
    using inv by (simp add: inv_defs)
  then show ?thesis using inv ImportAttributes by (simp add: import_attribute_list_def inv_import_list)
next
  case (ImportRelationships inp)
  have "\<And>names m. session_inv (s\<lparr>rel_listbox := names, relationships_mapping := Some m\<rparr>)"
    using inv by (simp add: inv_defs)
  then show ?thesis using inv ImportRelationships
    by (simp add: import_relationship_list_def inv_import_list)
next
  case (HandlePress h x y)
  then show ?thesis using inv by (simp add: on_handle_press_def inv_defs)
next
  case HandleRelease
  then show ?thesis using inv by (simp add: on_handle_release_def inv_defs)
qed (use inv in \<open>simp_all add: inv_on_canvas_click inv_on_mouse_up inv_on_handle_drag
       inv_open_image inv_toggle_create_bbox inv_on_label_select inv_on_attr_double_click
       inv_on_relationship_selected inv_on_labeled_select inv_show_context_menu
       show_attribute_context_menu_def show_relationship_context_menu_def
       inv_remove_attribute inv_remove_relationship\<close>)

lemma inv_start:
  "session_inv (fst (auto_load_imported_files initial labels_file attr_file rel_file))"
  by (auto simp: auto_load_imported_files_def initial_def inv_defs attrs_ok_def no_bbox_def
           split: option.splits sum.splits prod.splits)

lemma reachable_inv: "reachable s \<Longrightarrow> session_inv s"
  by (induction rule: reachable.induct) (simp_all add: inv_start inv_step)

lemma reachable_run: "reachable s \<Longrightarrow> reachable (run s es)"
  by (induction es arbitrary: s) (simp_all add: reachable.after)

lemma reachable_initial: "reachable initial"
  using reachable.start[of None None None] by (simp add: auto_load_imported_files_def)

subsection \<open>The sample session is a session\<close>

lemmas sample_defs =
  import_label_list_def import_relationship_list_def import_attribute_list_def import_list_def
  open_image_def clear_session_def update_relationship_view_def update_attribute_view_def
  toggle_create_bbox_def on_canvas_click_def inside_image_area_def on_mouse_up_def
  clamp_to_area_def create_handles_def on_label_select_def picked_def
  confirm_label_assignment_def count_of_def get0_def Let_def

lemma session0_run: "run initial setup_events = session0"
  by (simp add: setup_events_def initial_def session0_def box_a_def box_b_def box_c_def
        sample_defs fun_eq_iff)

lemma reachable_session0: "reachable session0"
  using reachable_run[OF reachable_initial, of setup_events] by (simp add: session0_run)

lemmas click_defs =
  on_canvas_click_def get_confirmed_bbox_at_def get_confirmed_second_bbox_relationship_def
  select_bbox_def deselect_bbox_def update_relationship_view_def update_attribute_view_def
  click_target_def end_relationship_mode_def same_relationship_def displayed_def dict_eq_def
  contains_def area_def show_context_menu_def add_relationship_def on_relationship_selected_def
  picked_def get0_def Let_def rel_entry_def bbox_entry_def str_int_def str_nat.simps digit_char_def

lemmas session0_defs = session0_def box_a_def box_b_def box_c_def

lemma session2_run: "run session0 edge_events = session2"
  by (simp add: session2_def edge_events_def session0_defs click_defs fun_eq_iff)

lemma reachable_session2: "reachable session2"
  using reachable_run[OF reachable_session0, of edge_events] by (simp add: session2_run)

lemma session_attr_run: "run session0 attr_events = session_attr"
  by (simp add: session_attr_def attr_events_def session0_defs click_defs add_attribute_def
        on_attr_double_click_def end_attribute_mode_def fun_eq_iff)

lemma reachable_session_attr: "reachable session_attr"
  using reachable_run[OF reachable_session0, of attr_events] by (simp add: session_attr_run)

lemma session_rel_run: "run session0 rel_events = session_rel"
  by (simp add: session_rel_def rel_events_def session0_defs click_defs fun_eq_iff)

lemma reachable_session_rel: "reachable session_rel"
  using reachable_run[OF reachable_session0, of rel_events] by (simp add: session_rel_run)

lemma session_dup_run: "run session0 dup_events = session_dup"
  by (simp add: session_dup_def session_rel_def dup_events_def session0_defs click_defs fun_eq_iff)

lemma reachable_session_dup: "reachable session_dup"
  using reachable_run[OF reachable_session0, of dup_events] by (simp add: session_dup_run)

lemma session_chg_run: "run session2 chg_events = session_chg"
  by (simp add: session_chg_def chg_events_def session2_def session0_defs show_context_menu_def
        change_label_def)

lemma reachable_session_chg: "reachable session_chg"
  using reachable_run[OF reachable_session2, of chg_events] by (simp add: session_chg_run)

lemma session_c1_run: "run session0 draw_events = session_c1"
  by (simp add: session_c1_def draw_events_def session0_defs sample_defs fun_eq_iff)

lemma reachable_session_c1: "reachable session_c1"
  using reachable_run[OF reachable_session0, of draw_events] by (simp add: session_c1_run)

subsection \<open>C1: removing a box and the predicates list\<close>

text \<open>
  C1. When a confirmed box is removed, the edges that have it as source or target are
  removed, and the predicate ids at the positions of the removed edges should be removed
  with them, so that every remaining edge keeps the predicate id it was added with.
  \<^verbatim>\<open>remove_bbox\<close> filters the relationships, but refills the predicates from the first
  positions of the old list. In the sample session the edges are
  \<open>car:1 on truck:1\<close> (predicate id 1) and \<open>car:2 near truck:1\<close> (predicate id 2);
  removing \<open>car:1\<close> leaves the edge \<open>car:2 near truck:1\<close> paired with predicate id 1,
  the id of \<open>on\<close>.
\<close>

theorem remove_bbox_misaligns_predicates:
  "relationships session2 = [(0, ''on'', 1), (2, ''near'', 1)]
   \<and> predicates session2 = Some [1, 2]
   \<and> selected_bbox session2 = Some 0
   \<and> map_option (\<lambda>m. (get0 m ''on'', get0 m ''near'')) (relationships_mapping session2) = Some (1, 2)
   \<and> relationships (fst (step session2 (ContextMenu (RemoveBbox True)))) = [(2, ''near'', 1)]
   \<and> predicates (fst (step session2 (ContextMenu (RemoveBbox True)))) = Some [1]"
  by (simp add: session2_def session0_defs show_context_menu_def remove_bbox_def dict_eq_def
        get0_def view_defs displayed_def Let_def)

subsection \<open>C2: a failed decode in \<^verbatim>\<open>open_image\<close>\<close>

text \<open>
  C2, as stated, says that a decode failure leaves the session unchanged. The reset of
  \<^verbatim>\<open>open_image\<close> stands before the \<^verbatim>\<open>try\<close>: in the sample session with its three boxes
  and two edges, a failed decode leaves no box, no edge and no counter.
\<close>

theorem open_image_decode_failure_counterexample:
  "confirmed_bboxes session2 = [0, 1, 2]
   \<and> confirmed_bboxes (fst (open_image session2 ''b.png'' (DecodeFailed ''cannot identify image file''))) = []
   \<and> relationships session2 = [(0, ''on'', 1), (2, ''near'', 1)]
   \<and> relationships (fst (open_image session2 ''b.png'' (DecodeFailed ''cannot identify image file''))) = []
   \<and> label_counts session2 ''car'' = Some 2
   \<and> label_counts (fst (open_image session2 ''b.png'' (DecodeFailed ''cannot identify image file''))) ''car'' = None
   \<and> fst (open_image session2 ''b.png'' (DecodeFailed ''cannot identify image file'')) \<noteq> session2"
proof -
  let ?s = "fst (open_image session2 ''b.png'' (DecodeFailed ''cannot identify image file''))"
  have 1: "confirmed_bboxes session2 = [0, 1, 2]"
    "relationships session2 = [(0, ''on'', 1), (2, ''near'', 1)]"
    "label_counts session2 ''car'' = Some 2"
    by (simp_all add: session2_def session0_defs)
  have 2: "confirmed_bboxes ?s = []" "relationships ?s = []" "label_counts ?s ''car'' = None"
    by (simp_all add: open_image_def clear_session_def view_defs Let_def)
  have "confirmed_bboxes ?s \<noteq> confirmed_bboxes session2" using 1 2 by simp
  then have "?s \<noteq> session2" by auto
  then show ?thesis using 1 2 by simp
qed

text \<open>
  C2, amended. When a file was chosen and the decode fails, \<^verbatim>\<open>open_image\<close> has already
  reset the session: no confirmed box, no pending box, no relationship, no predicate, no
  per-label counter, no selection, all mode flags off and no image loaded; the
  vocabularies and the image area of the previous image are kept, and the failure is
  shown as an error message. The session is left unchanged when the file dialog is
  cancelled.
\<close>

theorem open_image_decode_failure_resets:
  assumes "file_path \<noteq> []"
  shows "open_image s file_path (DecodeFailed e)
           = (clear_session s file_path, [ShowError ''Open Image Error'' e])
     \<and> confirmed_bboxes (clear_session s file_path) = []
     \<and> pending_bbox (clear_session s file_path) = None
     \<and> relationships (clear_session s file_path) = []
     \<and> predicates_list (clear_session s file_path) = []
     \<and> label_counts (clear_session s file_path) = Map.empty
     \<and> selected_bbox (clear_session s file_path) = None
     \<and> \<not> create_bbox_active (clear_session s file_path)
     \<and> \<not> handling_new_bbox (clear_session s file_path)
     \<and> \<not> change_label_mode (clear_session s file_path)
     \<and> \<not> attribute_add_mode (clear_session s file_path)
     \<and> \<not> relationship_mode (clear_session s file_path)
     \<and> loaded_image (clear_session s file_path) = None
     \<and> label_listbox (clear_session s file_path) = label_listbox s
     \<and> labels_mapping (clear_session s file_path) = labels_mapping s
     \<and> image_area (clear_session s file_path) = image_area s
     \<and> open_image s [] outcome = (s, [])"
  using assms
  by (cases "predicates s")
     (simp_all add: open_image_def clear_session_def view_defs Let_def predicates_list_def)

theorem open_image_decode_failure_resets_witness:
  "''b.png'' \<noteq> []
   \<and> open_image session2 ''b.png'' (DecodeFailed ''cannot identify image file'')
       = (clear_session session2 ''b.png'', [ShowError ''Open Image Error'' ''cannot identify image file''])
   \<and> confirmed_bboxes (clear_session session2 ''b.png'') = []
   \<and> relationships (clear_session session2 ''b.png'') = []
   \<and> label_listbox (clear_session session2 ''b.png'') = [''car'', ''truck'']"
  using open_image_decode_failure_resets [of "''b.png''" session2 "''cannot identify image file''"]
  by (simp add: session2_def session0_defs)

subsection \<open>C3: a click on the source box in relationship mode\<close>

lemma second_bbox_contains:
  assumes "get_confirmed_second_bbox_relationship s x y = Some b"
  shows "contains (coords (heap s b)) x y"
proof -
  from assms obtain a where "smallest_scan (heap s) x y (confirmed_bboxes s) None = Some (b, a)"
    by (auto simp: get_confirmed_second_bbox_relationship_def)
  from smallest_scan_Some[OF this] show ?thesis by simp
qed

lemma relationship_mode_selected:
  assumes "reachable s" and "relationship_mode s"
  obtains a where "selected_bbox s = Some a" and "source_bbox s = Some a"
    and "\<not> create_bbox_active s"
proof -
  have "modes_ok s" using assms(1) reachable_inv by (simp add: session_inv_def)
  then show ?thesis using assms(2) that by (auto simp: modes_ok_def)
qed

text \<open>
  C3, as stated, says that a click whose target is the source box shows a warning. In the
  sample session \<open>car:1\<close> is the source, the relationship \<open>on\<close> is chosen, and the click
  at \<open>(110, 210)\<close> resolves to \<open>car:1\<close>: the callback returns with no message and no
  change.
\<close>

theorem click_on_source_counterexample:
  "relationship_mode session_rel
   \<and> pending_relationship session_rel = ''on''
   \<and> source_bbox session_rel = Some 0
   \<and> get_confirmed_second_bbox_relationship session_rel 110 210 = Some 0
   \<and> on_canvas_click session_rel 110 210 True = (session_rel, [])"
  by (simp add: session_rel_def session0_defs on_canvas_click_def get_confirmed_bbox_at_def
        get_confirmed_second_bbox_relationship_def contains_def area_def dict_eq_def Let_def)

text \<open>
  C3, amended. In relationship mode (the source box is the selected box), a canvas click
  whose resolved target box equals the source box is ignored: \<^verbatim>\<open>on_canvas_click\<close> returns
  at its test "the clicked bbox is the already selected one", shows no warning and
  changes nothing, so the mode stays in the awaiting-target state. This holds in every
  state of a session, with or without a chosen predicate.
\<close>

theorem click_on_source_is_ignored:
  assumes "reachable s" and "relationship_mode s"
    and "opt_eq (heap s) (get_confirmed_second_bbox_relationship s x y) (source_bbox s)"
  shows "on_canvas_click s x y confirm = (s, [])"
proof -
  from assms(1,2) obtain a where sel: "selected_bbox s = Some a" and src: "source_bbox s = Some a"
    and nc: "\<not> create_bbox_active s" by (rule relationship_mode_selected)
  from assms(3) src obtain b where b: "get_confirmed_second_bbox_relationship s x y = Some b"
    and eq: "heap s b = heap s a"
    by (cases "get_confirmed_second_bbox_relationship s x y") (auto simp: dict_eq_def)
  have "contains (coords (heap s b)) x y" using b by (rule second_bbox_contains)
  then have "contains (coords (heap s a)) x y" using eq by simp
  then have "get_confirmed_bbox_at s x y = Some a" using sel by (simp add: get_confirmed_bbox_at_def)
  then show ?thesis using sel nc assms(2) by (simp add: on_canvas_click_def dict_eq_def)
qed

theorem click_on_source_is_ignored_witness:
  "reachable session_rel \<and> relationship_mode session_rel
   \<and> opt_eq (heap session_rel) (get_confirmed_second_bbox_relationship session_rel 110 210)
        (source_bbox session_rel)
   \<and> on_canvas_click session_rel 110 210 True = (session_rel, [])"
proof -
  have 1: "relationship_mode session_rel"
    by (simp add: session_rel_def)
  have 2: "opt_eq (heap session_rel) (get_confirmed_second_bbox_relationship session_rel 110 210)
        (source_bbox session_rel)"
    by (simp add: session_rel_def session0_defs get_confirmed_second_bbox_relationship_def
          contains_def area_def dict_eq_def)
  show ?thesis
    using click_on_source_is_ignored [OF reachable_session_rel 1 2, of True]
      reachable_session_rel 1 2 by simp
qed

subsection \<open>C4: instance ids under a label\<close>

lemma counts_select_bbox [simp]: "label_counts (select_bbox s b) = label_counts s"
  by (simp add: select_bbox_def deselect_bbox_def view_defs Let_def split: option.splits)

lemma counts_deselect_bbox [simp]: "label_counts (deselect_bbox s b) = label_counts s"
  by (simp add: deselect_bbox_def view_defs Let_def)

lemma counts_click_target [simp]: "label_counts (fst (click_target s x y c)) = label_counts s"
  by (simp add: click_target_def end_relationship_mode_def view_defs Let_def split: option.splits)

lemma counts_on_canvas_click [simp]:
  "label_counts (fst (on_canvas_click s x y c)) = label_counts s"
  by (simp add: on_canvas_click_def Let_def split: option.splits)

lemma counts_on_mouse_up [simp]: "label_counts (fst (on_mouse_up s x y)) = label_counts s"
  by (simp add: on_mouse_up_def split: option.splits prod.splits)

lemma counts_on_handle_drag [simp]: "label_counts (on_handle_drag s x y) = label_counts s"
  by (simp add: on_handle_drag_def Let_def split: option.splits prod.splits)

lemma counts_on_attr_double_click [simp]:
  "label_counts (fst (on_attr_double_click s sel result add_more)) = label_counts s"
  by (simp add: on_attr_double_click_def end_attribute_mode_def view_defs Let_def
        split: option.splits bool.splits)

lemma counts_on_labeled_select [simp]: "label_counts (on_labeled_select s sel) = label_counts s"
  by (simp add: on_labeled_select_def Let_def split: option.splits)

lemma counts_remove_bbox [simp]: "label_counts (fst (remove_bbox s answer)) = label_counts s"
  by (simp add: remove_bbox_def view_defs Let_def split: option.splits)

lemma counts_show_context_menu [simp]:
  "label_counts (fst (show_context_menu s cmd)) = label_counts s"
  by (cases cmd)
     (simp_all add: show_context_menu_def add_attribute_def add_relationship_def change_label_def
        split: option.splits)

lemma counts_remove_attribute [simp]:
  "label_counts (fst (remove_attribute s sel answer)) = label_counts s"
  by (simp add: remove_attribute_def view_defs Let_def split: option.splits)

lemma counts_remove_relationship [simp]:
  "label_counts (fst (remove_relationship s sel answer)) = label_counts s"
  by (simp add: remove_relationship_def view_defs Let_def split: option.splits)

lemma counts_import_list:
  assumes "\<And>names m. label_counts (store names m) = label_counts s"
  shows "label_counts (fst (import_list title inp store s)) = label_counts s"
  using assms by (cases inp) (simp add: import_list_def split: sum.splits)

lemma counts_confirm_label_assignment:
  "label_counts (fst (confirm_label_assignment s l answer))
     = (if answer then (label_counts s)(l \<mapsto> count_of (label_counts s) l + 1)
        else label_counts s)"
  by (simp add: confirm_label_assignment_def Let_def split: option.splits)

lemma counts_change_label_to:
  "label_counts (fst (change_label_to s l answer))
     = (if Some l \<noteq> change_old_label s \<and> answer
        then (label_counts s)(l \<mapsto> count_of (label_counts s) l + 1)
        else label_counts s)"
  by (simp add: change_label_to_def view_defs Let_def split: option.splits)

lemma counts_on_label_select:
  "count_of (label_counts (fst (on_label_select s sel answer))) lbl
     = count_of (label_counts s) lbl
       + (if confirms s (LabelSelect sel answer) lbl \<or> relabels s (LabelSelect sel answer) lbl
          then 1 else 0)"
proof (cases "picked (label_listbox s) sel")
  case None
  then show ?thesis by (simp add: on_label_select_def)
next
  case (Some l)
  show ?thesis
  proof (cases "change_label_mode s")
    case True
    then show ?thesis using Some
      by (auto simp: on_label_select_def counts_change_label_to count_of_def)
  next
    case False
    then show ?thesis using Some
      by (auto simp: on_label_select_def counts_confirm_label_assignment count_of_def)
  qed
qed

lemma counts_step:
  assumes "\<not> resets e"
  shows "count_of (label_counts (fst (step s e))) lbl
     = count_of (label_counts s) lbl + (if confirms s e lbl \<or> relabels s e lbl then 1 else 0)"
proof (cases e)
  case (LabelSelect sel answer)
  then show ?thesis by (simp only: step.simps counts_on_label_select)
next
  case (OpenImage p outcome)
  then show ?thesis using assms by (simp add: open_image_def)
qed (simp_all add: on_handle_press_def on_handle_release_def toggle_create_bbox_def
       on_relationship_selected_def show_attribute_context_menu_def
       show_relationship_context_menu_def import_label_list_def import_attribute_list_def
       import_relationship_list_def counts_import_list split: option.splits)

lemma counts_run:
  assumes "\<forall>e \<in> set es. \<not> resets e"
  shows "count_of (label_counts (run s es)) lbl
     = count_of (label_counts s) lbl + int (confirmations s es lbl) + int (relabelings s es lbl)"
  using assms
proof (induction es arbitrary: s)
  case Nil
  then show ?case by simp
next
  case (Cons e es)
  have nr: "\<not> resets e" and rest: "\<forall>e \<in> set es. \<not> resets e" using Cons.prems by simp_all
  have ex: "\<not> (confirms s e lbl \<and> relabels s e lbl)" by (cases e) auto
  show ?case
    using Cons.IH[OF rest, of "fst (step s e)"] counts_step[OF nr, of s lbl] ex
    by auto
qed

lemma confirms_new_box:
  assumes "session_inv s" and "confirms s e lbl"
  shows "confirmed_bboxes (fst (step s e)) = confirmed_bboxes s @ [next_ref s]
     \<and> new_box_id (fst (step s e)) = count_of (label_counts s) lbl + 1
     \<and> new_box_label (fst (step s e)) = lbl"
proof -
  from assms(2) obtain sel where e: "e = LabelSelect sel True"
    and p: "picked (label_listbox s) sel = Some lbl" and nc: "\<not> change_label_mode s"
    and pb: "pending_bbox s \<noteq> None"
    by (cases e) auto
  have "label_listbox s \<noteq> []" using p by (auto simp: picked_def split: option.splits)
  then obtain m where m: "labels_mapping s = Some m"
    using assms(1) by (auto simp: session_inv_def labels_ok_def)
  from pb obtain pend where pend: "pending_bbox s = Some pend" by auto
  show ?thesis
    using e p nc pend m
    by (simp add: on_label_select_def confirm_label_assignment_def Let_def new_box_id_def
          new_box_label_def)
qed

lemma session_c2_run:
  "run (fst (step session_c1 (LabelSelect (Some 0) True))) between_events = session_c2"
  by (simp add: session_c1_def session_c2_def between_events_def session0_defs box_d_def
        sample_defs click_defs change_label_def change_label_to_def rebind_relationship_def
        fun_eq_iff)

lemma no_confirmation_between:
  "confirmations (fst (step session_c1 (LabelSelect (Some 0) True))) between_events ''car'' = 0"
  by (simp add: session_c1_def between_events_def session0_defs
        sample_defs click_defs change_label_def change_label_to_def rebind_relationship_def)

text \<open>
  C4, as stated, says that successive confirmations under a label get ids that grow by
  exactly 1, also with label changes in between. A label change to the label takes an id
  from the same counter. In the sample session a fourth box is confirmed as \<open>car\<close> and
  gets id 3; \<open>truck:1\<close> is then relabelled to \<open>car\<close> (and becomes \<open>car:4\<close>); the next
  confirmation under \<open>car\<close>, with no other confirmation in between, gets id 5.
\<close>

theorem confirmation_ids_counterexample:
  "confirms session_c1 (LabelSelect (Some 0) True) ''car''
   \<and> new_box_label (fst (step session_c1 (LabelSelect (Some 0) True))) = ''car''
   \<and> new_box_id (fst (step session_c1 (LabelSelect (Some 0) True))) = 3
   \<and> run (fst (step session_c1 (LabelSelect (Some 0) True))) between_events = session_c2
   \<and> confirmations (fst (step session_c1 (LabelSelect (Some 0) True))) between_events ''car'' = 0
   \<and> confirms session_c2 (LabelSelect (Some 0) True) ''car''
   \<and> new_box_label (fst (step session_c2 (LabelSelect (Some 0) True))) = ''car''
   \<and> new_box_id (fst (step session_c2 (LabelSelect (Some 0) True))) = 5"
proof -
  have 1: "confirms session_c1 (LabelSelect (Some 0) True) ''car''"
    by (simp add: session_c1_def session0_defs picked_def)
  have 2: "new_box_label (fst (step session_c1 (LabelSelect (Some 0) True))) = ''car''"
    "new_box_id (fst (step session_c1 (LabelSelect (Some 0) True))) = 3"
    by (simp_all add: session_c1_def session0_defs new_box_label_def new_box_id_def sample_defs)
  have 3: "run (fst (step session_c1 (LabelSelect (Some 0) True))) between_events = session_c2"
    by (rule session_c2_run)
  have 4: "confirmations (fst (step session_c1 (LabelSelect (Some 0) True))) between_events ''car'' = 0"
    by (rule no_confirmation_between)
  have 5: "confirms session_c2 (LabelSelect (Some 0) True) ''car''"
    by (simp add: session_c2_def session0_defs picked_def)
  have 6: "new_box_label (fst (step session_c2 (LabelSelect (Some 0) True))) = ''car''"
    "new_box_id (fst (step session_c2 (LabelSelect (Some 0) True))) = 5"
    by (simp_all add: session_c2_def session0_defs new_box_label_def new_box_id_def sample_defs)
  show ?thesis using 1 2 3 4 5 6 by simp
qed

text \<open>
  C4, amended. Within one image (no \<^verbatim>\<open>open_image\<close> with a chosen file in between), the
  instance ids assigned under a label come from one counter, which confirmations under
  the label and label changes to the label advance by one each, and which no other event
  changes. So a confirmation under a label gets the id "counter plus one"; a later
  confirmation under the same label gets a strictly larger id (no id is reused, whatever
  happens in between: removals, label changes, other confirmations), larger by one plus
  the number of confirmations under the label and of label changes to the label in
  between. For successive confirmations the step is exactly 1 when no box was relabelled
  to the label in between.
\<close>

theorem confirmation_ids_increase:
  assumes "reachable s" and "confirms s e1 lbl"
    and "\<forall>e \<in> set es. \<not> resets e"
    and "confirms (run (fst (step s e1)) es) e2 lbl"
  shows "new_box_label (fst (step s e1)) = lbl
     \<and> new_box_label (fst (step (run (fst (step s e1)) es) e2)) = lbl
     \<and> new_box_id (fst (step s e1)) = count_of (label_counts s) lbl + 1
     \<and> new_box_id (fst (step (run (fst (step s e1)) es) e2))
          = new_box_id (fst (step s e1)) + 1
            + int (confirmations (fst (step s e1)) es lbl)
            + int (relabelings (fst (step s e1)) es lbl)
     \<and> new_box_id (fst (step s e1)) < new_box_id (fst (step (run (fst (step s e1)) es) e2))"
proof -
  let ?s1 = "fst (step s e1)"
  let ?s2 = "run ?s1 es"
  let ?s3 = "fst (step ?s2 e2)"
  have r1: "reachable ?s1" using assms(1) by (rule reachable.after)
  then have r2: "reachable ?s2" by (rule reachable_run)
  have i0: "session_inv s" using assms(1) by (rule reachable_inv)
  have i2: "session_inv ?s2" using r2 by (rule reachable_inv)
  have nr1: "\<not> resets e1" using assms(2) by (cases e1) auto
  have a: "new_box_id ?s1 = count_of (label_counts s) lbl + 1" "new_box_label ?s1 = lbl"
    using confirms_new_box[OF i0 assms(2)] by simp_all
  have b: "new_box_id ?s3 = count_of (label_counts ?s2) lbl + 1" "new_box_label ?s3 = lbl"
    using confirms_new_box[OF i2 assms(4)] by simp_all
  have c1: "count_of (label_counts ?s1) lbl = count_of (label_counts s) lbl + 1"
    using counts_step[OF nr1, of s lbl] assms(2) by simp
  have c2: "count_of (label_counts ?s2) lbl
              = count_of (label_counts ?s1) lbl + int (confirmations ?s1 es lbl)
                + int (relabelings ?s1 es lbl)"
    using assms(3) by (rule counts_run)
  show ?thesis using a b c1 c2 by simp
qed

theorem confirmation_ids_increase_witness:
  "reachable session_c1
   \<and> confirms session_c1 (LabelSelect (Some 0) True) ''car''
   \<and> confirms (run (fst (step session_c1 (LabelSelect (Some 0) True))) between_events)
        (LabelSelect (Some 0) True) ''car''
   \<and> new_box_id (fst (step session_c1 (LabelSelect (Some 0) True))) = 3
   \<and> confirmations (fst (step session_c1 (LabelSelect (Some 0) True))) between_events ''car'' = 0
   \<and> new_box_id (fst (step (run (fst (step session_c1 (LabelSelect (Some 0) True))) between_events)
                        (LabelSelect (Some 0) True)))
       = 4 + int (relabelings (fst (step session_c1 (LabelSelect (Some 0) True))) between_events ''car'')"
proof -
  have 1: "confirms session_c1 (LabelSelect (Some 0) True) ''car''"
    by (simp add: session_c1_def session0_defs picked_def)
  have 2: "\<forall>e \<in> set between_events. \<not> resets e"
    by (simp add: between_events_def)
  have 3: "run (fst (step session_c1 (LabelSelect (Some 0) True))) between_events = session_c2"
    by (rule session_c2_run)
  have 4: "confirms (run (fst (step session_c1 (LabelSelect (Some 0) True))) between_events)
        (LabelSelect (Some 0) True) ''car''"
    by (simp only: 3) (simp add: session_c2_def session0_defs picked_def)
  have 5: "new_box_id (fst (step session_c1 (LabelSelect (Some 0) True))) = 3"
    by (simp add: session_c1_def session0_defs new_box_id_def sample_defs)
  have 6: "confirmations (fst (step session_c1 (LabelSelect (Some 0) True))) between_events ''car'' = 0"
    by (rule no_confirmation_between)
  show ?thesis
    using confirmation_ids_increase [OF reachable_session_c1 1 2 4] reachable_session_c1 1 4 5 6
    by simp
qed

subsection \<open>C5: relationships and predicates have the same length\<close>

lemma aligned_remove_bbox:
  assumes "aligned s"
  shows "aligned (fst (remove_bbox s answer))"
proof (cases "selected_bbox s")
  case None
  then show ?thesis using assms by (simp add: remove_bbox_def)
next
  case (Some sel)
  let ?keep = "\<lambda>rel. \<not> dict_eq (heap s) (fst rel) sel \<and> \<not> dict_eq (heap s) (snd (snd rel)) sel"
  have le: "length (filter ?keep (relationships s)) \<le> length (relationships s)"
    by (rule length_filter_le)
  show ?thesis
    using assms le Some
    by (cases "predicates s")
       (auto simp: remove_bbox_def aligned_def predicates_list_def view_defs Let_def
             split: option.splits)
qed

text \<open>
  C5. In every state of a session the relationships list and the predicates list have
  the same length (a predicates list that does not exist yet counts as empty, as
  \<^verbatim>\<open>save_data\<close> reads it); in particular after a canvas click that adds an edge, after
  \<^verbatim>\<open>remove_relationship\<close> and after \<^verbatim>\<open>remove_bbox\<close>, and after any other event.
\<close>

theorem relationships_predicates_same_length:
  assumes "reachable s"
  shows "length (relationships s) = length (predicates_list s)
     \<and> aligned (fst (on_canvas_click s x y confirm))
     \<and> aligned (fst (remove_relationship s sel answer))
     \<and> aligned (fst (remove_bbox s answer))
     \<and> aligned (fst (step s e))"
proof -
  have inv: "session_inv s" using assms by (rule reachable_inv)
  have a: "\<And>t. session_inv t \<Longrightarrow> aligned t" by (simp add: session_inv_def)
  have "aligned s" using inv by (rule a)
  moreover have "aligned (fst (on_canvas_click s x y confirm))"
    using inv by (intro a inv_on_canvas_click)
  moreover have "aligned (fst (remove_relationship s sel answer))"
    using inv by (intro a inv_remove_relationship)
  moreover have "aligned (fst (step s e))"
    using inv by (intro a inv_step)
  moreover have "aligned (fst (remove_bbox s answer))"
    using \<open>aligned s\<close> by (rule aligned_remove_bbox)
  ultimately show ?thesis by (simp add: aligned_def)
qed

theorem relationships_predicates_same_length_witness:
  "reachable session2
   \<and> relationships session2 = [(0, ''on'', 1), (2, ''near'', 1)]
   \<and> predicates_list session2 = [1, 2]
   \<and> length (relationships session2) = length (predicates_list session2)
   \<and> aligned (fst (remove_bbox session2 True))"
  using relationships_predicates_same_length [OF reachable_session2, of 0 0 False None True]
    reachable_session2
  by (simp add: session2_def session0_defs predicates_list_def)

subsection \<open>C6: a duplicate relationship\<close>

text \<open>
  C6, as stated, says that every attempt to add an existing triple aborts the gesture
  with a duplicate warning. In the sample session the edge \<open>car:1 on truck:1\<close> exists,
  \<open>car:1\<close> is the source again and \<open>on\<close> is chosen again. The point \<open>(260, 360)\<close> lies in
  both boxes and resolves to the target \<open>truck:1\<close> (the smaller box), so the triple is the
  existing one; but the point lies in the selected box, and the callback returns before
  the relationship branch: no warning, and the mode stays.
\<close>

theorem duplicate_relationship_counterexample:
  "relationships session_dup = [(0, ''on'', 1)]
   \<and> relationship_mode session_dup
   \<and> source_bbox session_dup = Some 0
   \<and> pending_relationship session_dup = ''on''
   \<and> get_confirmed_second_bbox_relationship session_dup 260 360 = Some 1
   \<and> list_ex (same_relationship session_dup 1) (relationships session_dup)
   \<and> on_canvas_click session_dup 260 360 True = (session_dup, [])"
  by (simp add: session_dup_def session_rel_def session0_defs on_canvas_click_def
        get_confirmed_bbox_at_def get_confirmed_second_bbox_relationship_def
        same_relationship_def contains_def area_def dict_eq_def Let_def)

text \<open>
  C6, amended. In relationship mode with a predicate chosen, a canvas click outside the
  rectangle of the selected (source) box whose resolved target makes a triple
  (source, predicate, target) that already exists leaves the relationships unchanged and
  aborts the gesture: relationship mode ends, source and predicate are cleared, the
  labeled view is enabled again, the selection stays, and the duplicate warning is
  shown. (A click inside the rectangle of the selected box is ignored.)
\<close>

theorem duplicate_relationship_aborts:
  assumes "reachable s" and "relationship_mode s" and "pending_relationship s \<noteq> []"
    and "selected_bbox s = Some sel" and "\<not> contains (coords (heap s sel)) x y"
    and "get_confirmed_second_bbox_relationship s x y = Some target"
    and "list_ex (same_relationship s target) (relationships s)"
  shows "on_canvas_click s x y confirm
           = (end_relationship_mode s,
              [ShowWarning ''Add Relationship'' ''This relationship has already been created.''])
     \<and> relationships (end_relationship_mode s) = relationships s
     \<and> predicates (end_relationship_mode s) = predicates s
     \<and> \<not> relationship_mode (end_relationship_mode s)
     \<and> source_bbox (end_relationship_mode s) = None
     \<and> pending_relationship (end_relationship_mode s) = []
     \<and> selected_bbox (end_relationship_mode s) = Some sel"
proof -
  from assms(1,2) obtain a where sel: "selected_bbox s = Some a" and src: "source_bbox s = Some a"
    and nc: "\<not> create_bbox_active s" by (rule relationship_mode_selected)
  have a: "a = sel" using sel assms(4) by simp
  have cl: "get_confirmed_bbox_at s x y = None"
    using assms(4,5) by (simp add: get_confirmed_bbox_at_def)
  have "contains (coords (heap s target)) x y" using assms(6) by (rule second_bbox_contains)
  then have ne: "heap s target \<noteq> heap s sel" using assms(5) by auto
  have ct: "click_target s x y confirm
              = (end_relationship_mode s,
                 [ShowWarning ''Add Relationship'' ''This relationship has already been created.''])"
    using assms(3,6,7) ne src a by (simp add: click_target_def dict_eq_def)
  have "on_canvas_click s x y confirm = click_target s x y confirm"
    using nc cl assms(2,4) by (simp add: on_canvas_click_def)
  then show ?thesis using ct assms(4) by (simp add: end_relationship_mode_def)
qed

theorem duplicate_relationship_aborts_witness:
  "reachable session_dup \<and> relationship_mode session_dup
   \<and> pending_relationship session_dup \<noteq> []
   \<and> selected_bbox session_dup = Some 0
   \<and> \<not> contains (coords (heap session_dup 0)) 400 450
   \<and> get_confirmed_second_bbox_relationship session_dup 400 450 = Some 1
   \<and> list_ex (same_relationship session_dup 1) (relationships session_dup)
   \<and> on_canvas_click session_dup 400 450 True
       = (end_relationship_mode session_dup,
          [ShowWarning ''Add Relationship'' ''This relationship has already been created.''])
   \<and> relationships (end_relationship_mode session_dup) = [(0, ''on'', 1)]"
proof -
  have 1: "relationship_mode session_dup" "pending_relationship session_dup \<noteq> []"
    "selected_bbox session_dup = Some 0"
    by (simp_all add: session_dup_def session_rel_def)
  have 2: "\<not> contains (coords (heap session_dup 0)) 400 450"
    by (simp add: session_dup_def session_rel_def session0_defs contains_def)
  have 3: "get_confirmed_second_bbox_relationship session_dup 400 450 = Some 1"
    by (simp add: session_dup_def session_rel_def session0_defs
          get_confirmed_second_bbox_relationship_def contains_def area_def)
  have 4: "list_ex (same_relationship session_dup 1) (relationships session_dup)"
    by (simp add: session_dup_def session_rel_def same_relationship_def dict_eq_def)
  have 5: "relationships session_dup = [(0, ''on'', 1)]"
    by (simp add: session_dup_def)
  show ?thesis
    using duplicate_relationship_aborts [OF reachable_session_dup 1 2 3 4, of True]
      reachable_session_dup 1 2 3 4 5 by simp
qed

subsection \<open>C7: changing the label of a box\<close>

lemma rebind_relationship_props:
  "fst (snd (rebind_relationship h cb rel)) = fst (snd rel)
   \<and> (fst rel = cb \<longrightarrow> fst (rebind_relationship h cb rel) = cb)
   \<and> (snd (snd rel) = cb \<longrightarrow> snd (snd (rebind_relationship h cb rel)) = cb)"
  by (cases rel) (auto simp: rebind_relationship_def Let_def)

lemma displayed_eq:
  "heap a = heap b \<Longrightarrow> selected_bbox a = selected_bbox b \<Longrightarrow> displayed a = displayed b"
  by (rule ext) (simp add: displayed_def split: option.splits)

lemma rel_entry_source:
  "rel_entry h rel = bbox_entry (h (fst rel)) @ '' --- '' @ fst (snd rel) @ '' --- ''
                       @ bbox_entry (h (snd (snd rel)))"
  by (cases rel) (simp add: rel_entry_def)

text \<open>
  C7. In change-label mode (entered by \<^verbatim>\<open>change_label\<close> for the selected box), picking the
  box's current label is rejected with a warning and changes nothing, so the id stays.
  Picking a different label and confirming gives the box the instance id "counter of the
  new label plus one" (1 when the label has no counter yet) and stores it as the new
  counter; label id, instance id and label string of the box are updated in place, all
  other boxes are untouched; the relationships keep their length and predicates, every
  edge that referenced the box still references it, and the row of every edge whose
  source (target) is the box starts (ends) with the new \<open>label:id\<close> string; the
  relationship view holds the rows of the displayed edges.
\<close>

theorem change_label_assigns_fresh_id:
  assumes "reachable s" and "change_label_mode s" and "change_bbox s = Some cb"
    and "picked (label_listbox s) sel = Some lbl"
  shows "(lbl = label_str (heap s cb) \<longrightarrow>
            on_label_select s sel answer
              = (s, [ShowWarning ''Change Label'' ''The new label must be different from the old label.'']))
     \<and> (lbl \<noteq> label_str (heap s cb) \<longrightarrow>
          (\<exists>m. labels_mapping s = Some m
             \<and> heap (after_label_select s sel)
                 = (heap s)(cb := (heap s cb)\<lparr>label := get0 m lbl,
                                              inst_id := count_of (label_counts s) lbl + 1,
                                              label_str := lbl\<rparr>))
          \<and> inst_id (heap (after_label_select s sel) cb) = count_of (label_counts s) lbl + 1
          \<and> (label_counts s lbl = None \<longrightarrow> inst_id (heap (after_label_select s sel) cb) = 1)
          \<and> label_counts (after_label_select s sel)
              = (label_counts s)(lbl \<mapsto> count_of (label_counts s) lbl + 1)
          \<and> bbox_entry (heap (after_label_select s sel) cb)
              = lbl @ '':'' @ str_int (count_of (label_counts s) lbl + 1)
          \<and> length (relationships (after_label_select s sel)) = length (relationships s)
          \<and> (\<forall>i < length (relationships s).
                fst (snd (relationships (after_label_select s sel) ! i)) = fst (snd (relationships s ! i))
                \<and> (fst (relationships s ! i) = cb
                     \<longrightarrow> fst (relationships (after_label_select s sel) ! i) = cb)
                \<and> (snd (snd (relationships s ! i)) = cb
                     \<longrightarrow> snd (snd (relationships (after_label_select s sel) ! i)) = cb))
          \<and> (\<forall>rel \<in> set (relationships (after_label_select s sel)).
                (fst rel = cb \<longrightarrow>
                   (\<exists>rest. rel_entry (heap (after_label_select s sel)) rel
                      = lbl @ '':'' @ str_int (count_of (label_counts s) lbl + 1) @ '' --- '' @ rest))
                \<and> (snd (snd rel) = cb \<longrightarrow>
                   (\<exists>front. rel_entry (heap (after_label_select s sel)) rel
                      = front @ '' --- '' @ lbl @ '':'' @ str_int (count_of (label_counts s) lbl + 1))))
          \<and> relationship_view (after_label_select s sel)
              = map (rel_entry (heap (after_label_select s sel)))
                  (filter (displayed (after_label_select s sel))
                     (relationships (after_label_select s sel)))
          \<and> \<not> change_label_mode (after_label_select s sel))"
proof -
  have inv: "session_inv s" using assms(1) by (rule reachable_inv)
  have old: "change_old_label s = Some (label_str (heap s cb))"
    using inv assms(2,3) by (simp add: session_inv_def change_ok_def)
  have "label_listbox s \<noteq> []" using assms(4) by (auto simp: picked_def split: option.splits)
  then obtain m where m: "labels_mapping s = Some m"
    using inv by (auto simp: session_inv_def labels_ok_def)
  let ?n = "count_of (label_counts s) lbl + 1"
  let ?h = "(heap s)(cb := (heap s cb)\<lparr>label := get0 m lbl, inst_id := ?n, label_str := lbl\<rparr>)"
  let ?t = "after_label_select s sel"
  have same: "lbl = label_str (heap s cb) \<Longrightarrow>
            on_label_select s sel answer
              = (s, [ShowWarning ''Change Label'' ''The new label must be different from the old label.''])"
    using assms(2,4) old by (simp add: on_label_select_def change_label_to_def)
  {
    assume ne: "lbl \<noteq> label_str (heap s cb)"
    have t: "?t = (update_relationship_view
                     (s\<lparr>label_counts := (label_counts s)(lbl \<mapsto> ?n), heap := ?h,
                        relationships := map (rebind_relationship ?h cb) (relationships s)\<rparr>))
                  \<lparr>change_label_mode := False, change_bbox := None,
                    change_old_label := None, labeled_disabled := False\<rparr>"
      using assms(2,3,4) old m ne
      by (simp add: after_label_select_def on_label_select_def change_label_to_def Let_def)
    have h: "heap ?t = ?h" and lc: "label_counts ?t = (label_counts s)(lbl \<mapsto> ?n)"
      and rs: "relationships ?t = map (rebind_relationship ?h cb) (relationships s)"
      and cm: "\<not> change_label_mode ?t"
      by (simp_all add: t update_relationship_view_def)
    have rv: "relationship_view ?t = map (rel_entry (heap ?t)) (filter (displayed ?t) (relationships ?t))"
    proof -
      let ?u = "s\<lparr>label_counts := (label_counts s)(lbl \<mapsto> ?n), heap := ?h,
                   relationships := map (rebind_relationship ?h cb) (relationships s)\<rparr>"
      have d: "displayed ?t = displayed ?u"
        by (rule displayed_eq) (simp_all add: t update_relationship_view_def)
      have "relationship_view ?t = map (rel_entry ?h) (filter (displayed ?u) (relationships ?u))"
        by (simp add: t update_relationship_view_def)
      then show ?thesis using d h rs by simp
    qed
    have id: "inst_id (heap ?t cb) = ?n" by (simp add: h)
    have one: "label_counts s lbl = None \<Longrightarrow> inst_id (heap ?t cb) = 1"
      by (simp add: h count_of_def)
    have be: "bbox_entry (heap ?t cb) = lbl @ '':'' @ str_int ?n"
      by (simp add: h bbox_entry_def)
    have len: "length (relationships ?t) = length (relationships s)" by (simp add: rs)
    have nth: "\<forall>i < length (relationships s).
                fst (snd (relationships ?t ! i)) = fst (snd (relationships s ! i))
                \<and> (fst (relationships s ! i) = cb \<longrightarrow> fst (relationships ?t ! i) = cb)
                \<and> (snd (snd (relationships s ! i)) = cb \<longrightarrow> snd (snd (relationships ?t ! i)) = cb)"
      by (simp add: rs rebind_relationship_props)
    have ent: "\<forall>rel \<in> set (relationships ?t).
                (fst rel = cb \<longrightarrow>
                   (\<exists>rest. rel_entry (heap ?t) rel = lbl @ '':'' @ str_int ?n @ '' --- '' @ rest))
                \<and> (snd (snd rel) = cb \<longrightarrow>
                   (\<exists>front. rel_entry (heap ?t) rel = front @ '' --- '' @ lbl @ '':'' @ str_int ?n))"
    proof (intro ballI conjI impI)
      fix rel :: "ref \<times> string \<times> ref"
      assume "fst rel = cb"
      then have "rel_entry (heap ?t) rel
          = lbl @ '':'' @ str_int ?n @ '' --- '' @ (fst (snd rel) @ '' --- '' @ bbox_entry (heap ?t (snd (snd rel))))"
        using be by (simp add: rel_entry_source)
      then show "\<exists>rest. rel_entry (heap ?t) rel = lbl @ '':'' @ str_int ?n @ '' --- '' @ rest"
        by blast
    next
      fix rel :: "ref \<times> string \<times> ref"
      assume "snd (snd rel) = cb"
      then have "rel_entry (heap ?t) rel
          = (bbox_entry (heap ?t (fst rel)) @ '' --- '' @ fst (snd rel)) @ '' --- '' @ lbl @ '':'' @ str_int ?n"
        using be by (simp add: rel_entry_source)
      then show "\<exists>front. rel_entry (heap ?t) rel = front @ '' --- '' @ lbl @ '':'' @ str_int ?n"
        by blast
    qed
    note m h id one lc be len nth ent rv cm
  }
  then show ?thesis using same by blast
qed

theorem change_label_assigns_fresh_id_witness:
  "reachable session_chg \<and> change_label_mode session_chg \<and> change_bbox session_chg = Some 0
   \<and> picked (label_listbox session_chg) (Some 1) = Some ''truck''
   \<and> label_str (heap session_chg 0) = ''car''
   \<and> relationships session_chg = [(0, ''on'', 1), (2, ''near'', 1)]
   \<and> label_counts session_chg ''truck'' = Some 1
   \<and> inst_id (heap (after_label_select session_chg (Some 1)) 0) = 2
   \<and> bbox_entry (heap (after_label_select session_chg (Some 1)) 0) = ''truck:2''
   \<and> length (relationships (after_label_select session_chg (Some 1))) = 2"
proof -
  have 1: "change_label_mode session_chg" "change_bbox session_chg = Some 0"
    "label_str (heap session_chg 0) = ''car''"
    "relationships session_chg = [(0, ''on'', 1), (2, ''near'', 1)]"
    "label_counts session_chg ''truck'' = Some 1"
    by (simp_all add: session_chg_def session2_def session0_defs)
  have 2: "picked (label_listbox session_chg) (Some 1) = Some ''truck''"
    by (simp add: session_chg_def session2_def session0_defs picked_def)
  have ne: "''truck'' \<noteq> label_str (heap session_chg 0)" using 1 by simp
  have n: "count_of (label_counts session_chg) ''truck'' + 1 = 2"
    using 1 by (simp add: count_of_def)
  from change_label_assigns_fresh_id [OF reachable_session_chg 1(1,2) 2, of True] ne
  have "inst_id (heap (after_label_select session_chg (Some 1)) 0)
          = count_of (label_counts session_chg) ''truck'' + 1"
    and "bbox_entry (heap (after_label_select session_chg (Some 1)) 0)
          = ''truck'' @ '':'' @ str_int (count_of (label_counts session_chg) ''truck'' + 1)"
    and "length (relationships (after_label_select session_chg (Some 1)))
          = length (relationships session_chg)"
    by blast+
  then show ?thesis
    using reachable_session_chg 1 2 n
    by (simp add: str_int_def str_nat.simps digit_char_def)
qed

subsection \<open>C8: at most ten attributes, no duplicates\<close>

text \<open>
  C8. In every state of a session, the attributes of every confirmed box are at most ten
  and pairwise different. In attribute mode, \<^verbatim>\<open>on_attr_double_click\<close> rejects an attribute
  the selected box already has (a warning, nothing changes) and refuses to append to a
  box that has ten attributes (a warning, the mode ends, the box is unchanged).
\<close>

theorem attributes_bounded_distinct:
  assumes "reachable s"
  shows "(\<forall>b \<in> set (confirmed_bboxes s).
            length (attributes (heap s b)) \<le> 10 \<and> distinct (attributes (heap s b)))
     \<and> (\<forall>sb a. attribute_add_mode s \<and> selected_bbox s = Some sb
                 \<and> picked (attr_listbox s) sel = Some a
                 \<and> a \<in> set (attributes (heap s sb))
          \<longrightarrow> fst (on_attr_double_click s sel result add_more) = s
              \<and> (\<exists>text. snd (on_attr_double_click s sel result add_more)
                           = [ShowWarning ''Add Attribute'' text]))
     \<and> (\<forall>sb a. attribute_add_mode s \<and> selected_bbox s = Some sb
                 \<and> picked (attr_listbox s) sel = Some a
                 \<and> a \<notin> set (attributes (heap s sb))
                 \<and> 10 \<le> length (attributes (heap s sb))
          \<longrightarrow> on_attr_double_click s sel result add_more
                = (end_attribute_mode s,
                   [ShowWarning ''Add Attribute''
                      ''You have already reached the limit of 10 attributes for this bbox.'']))"
proof -
  have "session_inv s" using assms by (rule reachable_inv)
  then have "\<forall>r. attrs_ok (attributes (heap s r))" by (simp add: session_inv_def)
  then have 1: "\<forall>b \<in> set (confirmed_bboxes s).
            length (attributes (heap s b)) \<le> 10 \<and> distinct (attributes (heap s b))"
    by (simp add: attrs_ok_def)
  show ?thesis using 1 by (simp add: on_attr_double_click_def)
qed

theorem attributes_bounded_distinct_witness:
  "reachable session_attr
   \<and> confirmed_bboxes session_attr = [0, 1, 2]
   \<and> attributes (heap session_attr 0) = [''red'']
   \<and> length (attributes (heap session_attr 0)) \<le> 10
   \<and> distinct (attributes (heap session_attr 0))"
  using attributes_bounded_distinct [OF reachable_session_attr, of None None False]
    reachable_session_attr
  by (simp add: session_attr_def session0_defs)

subsection \<open>C9: the hit test\<close>

text \<open>
  C9. When no box is selected, \<^verbatim>\<open>_get_confirmed_bbox_at\<close> returns a confirmed box whose
  rectangle contains the point and whose area is smallest among the confirmed boxes that
  contain it (and nothing when no confirmed box contains it); when a box is selected, it
  tests that box only: it returns the selected box for a point inside it and nothing for
  a point outside.
\<close>

theorem hit_test_smallest_or_selected:
  "(selected_bbox s = None \<longrightarrow>
      (case get_confirmed_bbox_at s x y of
         None \<Rightarrow> \<forall>b \<in> set (confirmed_bboxes s). \<not> contains (coords (heap s b)) x y
       | Some r \<Rightarrow>
           r \<in> set (confirmed_bboxes s) \<and> contains (coords (heap s r)) x y
           \<and> (\<forall>b \<in> set (confirmed_bboxes s).
                 contains (coords (heap s b)) x y
                 \<longrightarrow> area (coords (heap s r)) \<le> area (coords (heap s b)))))
   \<and> (\<forall>sel. selected_bbox s = Some sel \<longrightarrow>
         get_confirmed_bbox_at s x y
           = (if contains (coords (heap s sel)) x y then Some sel else None))"
proof (intro conjI impI allI)
  assume ns: "selected_bbox s = None"
  let ?res = "smallest_scan (heap s) x y (confirmed_bboxes s) None"
  have g: "get_confirmed_bbox_at s x y = map_option fst ?res"
    using ns by (simp add: get_confirmed_bbox_at_def)
  show "case get_confirmed_bbox_at s x y of
         None \<Rightarrow> \<forall>b \<in> set (confirmed_bboxes s). \<not> contains (coords (heap s b)) x y
       | Some r \<Rightarrow>
           r \<in> set (confirmed_bboxes s) \<and> contains (coords (heap s r)) x y
           \<and> (\<forall>b \<in> set (confirmed_bboxes s).
                 contains (coords (heap s b)) x y
                 \<longrightarrow> area (coords (heap s r)) \<le> area (coords (heap s b)))"
  proof (cases ?res)
    case None
    then have "\<forall>b \<in> set (confirmed_bboxes s). \<not> contains (coords (heap s b)) x y"
      by (simp add: smallest_scan_None)
    then show ?thesis using g None by simp
  next
    case (Some p)
    obtain r a where p: "p = (r, a)" by (cases p)
    have "?res = Some (r, a)" using Some p by simp
    from smallest_scan_Some[OF this] have
      "a = area (coords (heap s r))" "contains (coords (heap s r)) x y"
      "r \<in> set (confirmed_bboxes s)"
      "\<forall>b \<in> set (confirmed_bboxes s). contains (coords (heap s b)) x y \<longrightarrow> a \<le> area (coords (heap s b))"
      by auto
    then show ?thesis using g Some p by simp
  qed
next
  fix sel
  assume "selected_bbox s = Some sel"
  then show "get_confirmed_bbox_at s x y
           = (if contains (coords (heap s sel)) x y then Some sel else None)"
    by (simp add: get_confirmed_bbox_at_def)
qed

theorem hit_test_witness:
  "selected_bbox session0 = None
   \<and> contains (coords (heap session0 0)) 260 360
   \<and> contains (coords (heap session0 1)) 260 360
   \<and> get_confirmed_bbox_at session0 260 360 = Some 1
   \<and> area (coords (heap session0 1)) \<le> area (coords (heap session0 0))"
  using hit_test_smallest_or_selected [of session0 260 360]
  by (simp add: session0_def get_confirmed_bbox_at_def box_a_def box_b_def box_c_def
        contains_def area_def)

subsection \<open>C10: switching the selection through the labeled view\<close>

text \<open>
  C10. While a box A is selected and no create, attribute or relationship mode is
  active, selecting in the labeled view the row of another confirmed box B (the row that
  \<open>on_labeled_select\<close> resolves to B, B not equal to A) deselects A and selects B in
  one step: afterwards B is the selected box and is marked selected, and A is not.
\<close>

theorem labeled_select_switches_selection:
  assumes "\<not> create_bbox_active s" and "\<not> attribute_add_mode s" and "\<not> relationship_mode s"
    and "selected_bbox s = Some a"
    and "find (\<lambda>bb. bbox_entry (heap s bb) = entry) (confirmed_bboxes s) = Some b"
    and "\<not> dict_eq (heap s) a b"
  shows "selected_bbox (on_labeled_select s (Some entry)) = Some b
     \<and> selected (heap (on_labeled_select s (Some entry)) b)
     \<and> \<not> selected (heap (on_labeled_select s (Some entry)) a)"
proof -
  have ab: "a \<noteq> b" using assms(6) by (auto simp: dict_eq_def)
  define s1 where "s1 = deselect_bbox s a"
  have d: "selected_bbox s1 = None" "\<not> selected (heap s1 a)"
    "\<not> create_bbox_active s1" "\<not> attribute_add_mode s1" "\<not> relationship_mode s1"
    using assms(1-4) by (simp_all add: s1_def deselect_bbox_def view_defs dict_eq_def Let_def)
  have "on_labeled_select s (Some entry) = select_bbox s1 b"
    using assms by (simp add: on_labeled_select_def s1_def)
  then show ?thesis using d ab by (simp add: select_bbox_def view_defs Let_def)
qed

theorem labeled_select_switches_selection_witness:
  "\<not> create_bbox_active session2 \<and> \<not> attribute_add_mode session2 \<and> \<not> relationship_mode session2
   \<and> selected_bbox session2 = Some 0
   \<and> find (\<lambda>bb. bbox_entry (heap session2 bb) = ''truck:1'') (confirmed_bboxes session2) = Some 1
   \<and> \<not> dict_eq (heap session2) 0 1
   \<and> selected_bbox (on_labeled_select session2 (Some ''truck:1'')) = Some 1
   \<and> selected (heap (on_labeled_select session2 (Some ''truck:1'')) 1)
   \<and> \<not> selected (heap (on_labeled_select session2 (Some ''truck:1'')) 0)"
proof -
  have 1: "\<not> create_bbox_active session2" "\<not> attribute_add_mode session2"
    "\<not> relationship_mode session2" "selected_bbox session2 = Some 0"
    by (simp_all add: session2_def session0_defs)
  have 2: "find (\<lambda>bb. bbox_entry (heap session2 bb) = ''truck:1'') (confirmed_bboxes session2) = Some 1"
    by (simp add: session2_def session0_defs bbox_entry_def str_int_def str_nat.simps digit_char_def)
  have 3: "\<not> dict_eq (heap session2) 0 1"
    by (simp add: session2_def session0_defs dict_eq_def)
  show ?thesis
    using labeled_select_switches_selection [OF 1 2 3] 1 2 3 by simp
qed

end
